theory Spec2Isabelle
  imports
    Complex_Main
    "HOL-Library.Char_ord"
    "HOL-Library.List_Lexorder"
    "HOL-Library.Product_Lexorder"
begin

section \<open>Values exchanged with the upstream provider\<close>

text \<open>
  \<^verbatim>\<open>response.json()\<close> yields a Python value built from \<^verbatim>\<open>None\<close>, booleans, integers,
  floats, strings, lists and dictionaries. A float is kept as the decimal number that
  writes it (its \<^verbatim>\<open>repr\<close>); the binary value it stands for is \<open>double_of\<close> of that decimal,
  below, and the arithmetic of the chart is done on the decimals, as on real numbers.
  Infinities and \<^verbatim>\<open>nan\<close> are not values of the model. A string is a list of characters
  of one byte; what is said about strings is meant for ASCII text. A dictionary is kept
  as the list of its key/value pairs in the order of the document; a repeated key takes
  its last value, as \<^verbatim>\<open>json.loads\<close> does.
\<close>

datatype json =
    JNull
  | JBool bool
  | JInt int
  | JFloat real
  | JStr string
  | JArr "json list"
  | JObj "(string \<times> json) list"

datatype exn =
    AttributeError
  | TypeError
  | IndexError
  | KeyError
  | ValueError
  | OutOfBoundsDatetime
  | OSError

text \<open>Truth value of a Python object, as used by \<^verbatim>\<open>x or 0.0\<close>.\<close>

fun truthy :: "json \<Rightarrow> bool" where
  "truthy JNull = False"
| "truthy (JBool b) = b"
| "truthy (JInt n) = (n \<noteq> 0)"
| "truthy (JFloat x) = (x \<noteq> 0)"
| "truthy (JStr s) = (s \<noteq> [])"
| "truthy (JArr xs) = (xs \<noteq> [])"
| "truthy (JObj kvs) = (kvs \<noteq> [])"

definition dict_lookup :: "(string \<times> json) list \<Rightarrow> string \<Rightarrow> json option" where
  "dict_lookup kvs k = map_of (rev kvs) k"

text \<open>\<^verbatim>\<open>d.get(key, default)\<close> on a dictionary.\<close>

definition dict_get :: "(string \<times> json) list \<Rightarrow> string \<Rightarrow> json \<Rightarrow> json" where
  "dict_get kvs k d = (case dict_lookup kvs k of None \<Rightarrow> d | Some v \<Rightarrow> v)"

text \<open>
  \<^verbatim>\<open>for coin in data\<close>: a list yields its elements, a dictionary its keys (in order of first
  insertion), a string its characters; anything else is not iterable.
\<close>

fun py_iter :: "json \<Rightarrow> exn + json list" where
  "py_iter (JArr xs) = Inr xs"
| "py_iter (JObj kvs) = Inr (map JStr (rev (remdups (rev (map fst kvs)))))"
| "py_iter (JStr s) = Inr (map (\<lambda>c. JStr [c]) s)"
| "py_iter _ = Inl TypeError"

text \<open>
  \<^verbatim>\<open>str.upper\<close> as it acts on ASCII text: the 26 letters change, nothing else does. On other
  text \<^verbatim>\<open>str.upper\<close> follows the Unicode tables, which this does not; the statements about
  upper-casing below are made for ASCII strings.
\<close>

definition ascii_lowercase :: string where
  "ascii_lowercase = ''abcdefghijklmnopqrstuvwxyz''"

definition ascii_uppercase :: string where
  "ascii_uppercase = ''ABCDEFGHIJKLMNOPQRSTUVWXYZ''"

definition upper_char :: "char \<Rightarrow> char" where
  "upper_char c =
     (case map_of (zip ascii_lowercase ascii_uppercase) c of None \<Rightarrow> c | Some C \<Rightarrow> C)"

definition upper :: "string \<Rightarrow> string" where
  "upper s = map upper_char s"

definition ascii :: "string \<Rightarrow> bool" where
  "ascii s = list_all (\<lambda>c. (of_char c :: nat) < 128) s"

text \<open>\<^verbatim>\<open>v.upper()\<close> on an arbitrary value: only a string has the method.\<close>

fun str_upper :: "json \<Rightarrow> exn + string" where
  "str_upper (JStr s) = Inr (upper s)"
| "str_upper _ = Inl AttributeError"

section \<open>The clock and the time column\<close>

record datetime =
  year :: nat
  month :: nat
  day :: nat
  hour :: nat
  minute :: nat
  second :: nat

definition digit_char :: "nat \<Rightarrow> char" where
  "digit_char d = ''0123456789'' ! (d mod 10)"

definition pad2 :: "nat \<Rightarrow> string" where
  "pad2 n = [digit_char (n div 10), digit_char n]"

definition pad4 :: "nat \<Rightarrow> string" where
  "pad4 n = [digit_char (n div 1000), digit_char (n div 100), digit_char (n div 10), digit_char n]"

text \<open>
  \<^verbatim>\<open>%Y\<close> as the C library of the platform writes it: four digits from the year 1000 on,
  and no padding below (a \<^verbatim>\<open>datetime\<close> has a year from 1 to 9999).
\<close>

definition year_string :: "nat \<Rightarrow> string" where
  "year_string y =
     (if y < 10 then [digit_char y]
      else if y < 100 then pad2 y
      else if y < 1000 then [digit_char (y div 100), digit_char (y div 10), digit_char y]
      else pad4 y)"

text \<open>\<^verbatim>\<open>strftime("%Y-%m-%d %H:%M:%S")\<close>.\<close>

definition strftime :: "datetime \<Rightarrow> string" where
  "strftime t =
     year_string (year t) @ ''-'' @ pad2 (month t) @ ''-'' @ pad2 (day t) @ '' '' @
     pad2 (hour t) @ '':'' @ pad2 (minute t) @ '':'' @ pad2 (second t)"

section \<open>Snapshot rows, the cache and the CSV file\<close>

text \<open>
  One dictionary of the list \<^verbatim>\<open>rows\<close>. The time is the formatted string and the symbol is the
  result of \<^verbatim>\<open>upper()\<close>, hence a string; the other four fields hold whatever value the
  provider sent (or the default).
\<close>

record row =
  time :: string
  name :: json
  symbol :: string
  price :: json
  change :: json
  volume :: json

text \<open>
  The file \<^verbatim>\<open>crypto_data.csv\<close> is the list of its lines: a header line carrying column
  names, or a data line carrying one row. The textual encoding of the cells is not
  modelled. The file system is a file that is absent (\<open>None\<close>) or present.
\<close>

datatype csv_line = Header "string list" | Data row

record state =
  last_snapshot :: "row list"
  csv_file :: "csv_line list option"

definition csv_columns :: "string list" where
  "csv_columns = [''time'', ''name'', ''symbol'', ''price'', ''change'', ''volume'']"

text \<open>The columns of \<^verbatim>\<open>pd.DataFrame(rows)\<close>: the keys of the dictionaries, none for no rows.\<close>

definition columns :: "row list \<Rightarrow> string list" where
  "columns rows = (if rows = [] then [] else csv_columns)"

text \<open>
  Whether the file can be written is the environment's, at each call: the disk takes the
  write, or opening the file raises \<^verbatim>\<open>OSError\<close> (no permission, a read-only file
  system) and the file stays as it was. A write that fails part-way is not modelled.
\<close>

datatype disk = Writes | Refuses

text \<open>
  Lines 58 to 62, when the disk takes the write: \<^verbatim>\<open>to_csv(CSV_FILE, index=False)\<close> when the
  file does not exist, else \<^verbatim>\<open>to_csv(CSV_FILE, mode='a', header=False, index=False)\<close>.
\<close>

definition to_csv :: "row list \<Rightarrow> csv_line list option \<Rightarrow> csv_line list" where
  "to_csv rows file =
     (case file of
        None \<Rightarrow> Header (columns rows) # map Data rows
      | Some ls \<Rightarrow> ls @ map Data rows)"

fun line_rows :: "csv_line list \<Rightarrow> row list" where
  "line_rows [] = []"
| "line_rows (Header c # ls) = line_rows ls"
| "line_rows (Data r # ls) = r # line_rows ls"

fun header_count :: "csv_line list \<Rightarrow> nat" where
  "header_count [] = 0"
| "header_count (Header c # ls) = Suc (header_count ls)"
| "header_count (Data r # ls) = header_count ls"

definition file_lines :: "state \<Rightarrow> csv_line list" where
  "file_lines st = (case csv_file st of None \<Rightarrow> [] | Some ls \<Rightarrow> ls)"

definition stored_rows :: "state \<Rightarrow> row list" where
  "stored_rows st = line_rows (file_lines st)"

section \<open>The snapshot fetcher\<close>

text \<open>
  What the network gives to \<^verbatim>\<open>requests.get\<close>: no response at all (a timeout or a connection
  error, which raises), or a response with a status code and a body; the body parses as
  JSON or does not (\<open>None\<close>).
\<close>

record response =
  status_code :: nat
  body :: "json option"

datatype upstream = NoResponse | Got response

text \<open>\<^verbatim>\<open>raise_for_status\<close> raises for the client and server error codes, 400 to 599.\<close>

definition raise_for_status :: "response \<Rightarrow> bool" where
  "raise_for_status r = (400 \<le> status_code r \<and> status_code r < 600)"

text \<open>
  The \<^verbatim>\<open>try\<close> block shared by both fetches: \<open>None\<close> when the bare \<^verbatim>\<open>except\<close> is taken,
  else the parsed \<^verbatim>\<open>data\<close>.
\<close>

definition try_request :: "upstream \<Rightarrow> json option" where
  "try_request u =
     (case u of
        NoResponse \<Rightarrow> None
      | Got r \<Rightarrow> if raise_for_status r then None else body r)"

text \<open>The dictionary appended for one \<^verbatim>\<open>coin\<close> (lines 47 to 54).\<close>

definition make_row :: "string \<Rightarrow> json \<Rightarrow> exn + row" where
  "make_row now coin =
     (case coin of
        JObj kvs \<Rightarrow>
          (case str_upper (dict_get kvs ''symbol'' (JStr '''')) of
             Inl e \<Rightarrow> Inl e
           | Inr sy \<Rightarrow>
               Inr \<lparr> time = now,
                     name = dict_get kvs ''name'' (JStr ''''),
                     symbol = sy,
                     price = dict_get kvs ''current_price'' (JFloat 0),
                     change =
                       (let c = dict_get kvs ''price_change_percentage_24h'' JNull
                        in if truthy c then c else JFloat 0),
                     volume = dict_get kvs ''total_volume'' (JInt 0) \<rparr>)
      | _ \<Rightarrow> Inl AttributeError)"

text \<open>The loop of lines 46 to 54, with \<^verbatim>\<open>rows\<close> as accumulator.\<close>

fun build_rows :: "string \<Rightarrow> json list \<Rightarrow> row list \<Rightarrow> exn + row list" where
  "build_rows now [] rows = Inr rows"
| "build_rows now (coin # coins) rows =
     (case make_row now coin of
        Inl e \<Rightarrow> Inl e
      | Inr r \<Rightarrow> build_rows now coins (rows @ [r]))"

text \<open>
  \<^verbatim>\<open>fetch_crypto_data\<close>: the result (rows returned, or the exception that escapes) and the
  state left behind. The clock is read once, before the loop. The cache is assigned on
  line 56, before the write of lines 58 to 62, which nothing guards: when the write
  raises, the exception escapes and the cache keeps the new rows.
\<close>

definition fetch_crypto_data ::
  "upstream \<Rightarrow> datetime \<Rightarrow> disk \<Rightarrow> state \<Rightarrow> (exn + row list) \<times> state" where
  "fetch_crypto_data u clock d st =
     (case try_request u of
        None \<Rightarrow> (Inr (last_snapshot st), st)
      | Some data \<Rightarrow>
          (let now = strftime clock in
           case py_iter data of
             Inl e \<Rightarrow> (Inl e, st)
           | Inr coins \<Rightarrow>
               (case build_rows now coins [] of
                  Inl e \<Rightarrow> (Inl e, st)
                | Inr rows \<Rightarrow>
                    (let st1 = st\<lparr>last_snapshot := rows\<rparr> in
                     case d of
                       Refuses \<Rightarrow> (Inl OSError, st1)
                     | Writes \<Rightarrow>
                         (Inr rows, st1\<lparr>csv_file := Some (to_csv rows (csv_file st))\<rparr>)))))"

text \<open>
  The scheduler and the \<^verbatim>\<open>/data\<close> route call the function again and again; an exception
  ends one call, not the process. Each event is what the network, the clock and the disk
  give to one call.
\<close>

fun run_captures :: "(upstream \<times> datetime \<times> disk) list \<Rightarrow> state \<Rightarrow> state" where
  "run_captures [] st = st"
| "run_captures ((u, clock, d) # evs) st =
     run_captures evs (snd (fetch_crypto_data u clock d st))"

text \<open>
  The batch a call appends: the rows it builds when it gets past the \<^verbatim>\<open>try\<close> block and
  the loop and the disk takes the write. It does not depend on the state, so it is read
  off a call on the empty state.
\<close>

definition fresh_batch :: "upstream \<Rightarrow> datetime \<Rightarrow> disk \<Rightarrow> row list option" where
  "fresh_batch u clock d =
     (if try_request u = None then None
      else case fst (fetch_crypto_data u clock d \<lparr>last_snapshot = [], csv_file = None\<rparr>) of
             Inl e \<Rightarrow> None
           | Inr rows \<Rightarrow> Some rows)"

definition batches :: "(upstream \<times> datetime \<times> disk) list \<Rightarrow> row list list" where
  "batches evs = List.map_filter (\<lambda>(u, clock, d). fresh_batch u clock d) evs"

text \<open>
  The failure of a fetch in the words of the specification: a timeout, a status that is
  not 2xx, or a body that does not parse.
\<close>

definition spec_fetch_failed :: "upstream \<Rightarrow> bool" where
  "spec_fetch_failed u =
     (case u of
        NoResponse \<Rightarrow> True
      | Got r \<Rightarrow> \<not> (200 \<le> status_code r \<and> status_code r < 300) \<or> body r = None)"

text \<open>
  An asset as the provider's contract has it: an object whose \<^verbatim>\<open>symbol\<close>, when present, is
  a string, here of ASCII characters.
\<close>

definition contract_coin :: "json \<Rightarrow> bool" where
  "contract_coin c =
     (case c of
        JObj kvs \<Rightarrow> (case dict_get kvs ''symbol'' (JStr '''') of JStr s \<Rightarrow> ascii s | _ \<Rightarrow> False)
      | _ \<Rightarrow> False)"

section \<open>Reading the file back\<close>

text \<open>
  A route answers with its payload, with a 404 and a message, or an exception escapes
  it.
\<close>

datatype failure = NotFound string | Uncaught

fun is_data :: "csv_line \<Rightarrow> bool" where
  "is_data (Data r) = True"
| "is_data (Header c) = False"

text \<open>
  \<^verbatim>\<open>pd.read_csv\<close>: the first line names the columns and the others are the rows. A file
  whose first line is not the six column names has no \<^verbatim>\<open>time\<close> column to parse or select,
  and the route raises (\<open>None\<close>); so does, here, a file with a second header line, which
  \<^verbatim>\<open>fetch_crypto_data\<close> never writes.

  The rows come back as they were written. That is what pandas does for the rows called
  plain below. It reads other cells differently, from their text: an empty string and
  words such as \<^verbatim>\<open>NA\<close> or \<^verbatim>\<open>NULL\<close> as a missing value, text that looks like a number or a
  truth value as one, an integer among floats as a float; a column left without any string
  has no \<^verbatim>\<open>.str\<close>. None of this is modelled, so what is proved about the two readers is
  proved for files of plain rows.
\<close>

definition read_csv :: "csv_line list \<Rightarrow> row list option" where
  "read_csv ls =
     (case ls of
        Header cols # rest \<Rightarrow>
          if cols = csv_columns \<and> list_all is_data rest then Some (line_rows rest) else None
      | _ \<Rightarrow> None)"

text \<open>
  Text that pandas reads back as the string it is: letters only, at least one, and none of
  the words it takes for a missing value, an infinity or a truth value (in any case).
\<close>

definition lower_char :: "char \<Rightarrow> char" where
  "lower_char c =
     (case map_of (zip ascii_uppercase ascii_lowercase) c of None \<Rightarrow> c | Some l \<Rightarrow> l)"

definition reserved_words :: "string list" where
  "reserved_words =
     [''na'', ''nan'', ''null'', ''none'', ''inf'', ''infinity'', ''true'', ''false'']"

definition plain_text :: "string \<Rightarrow> bool" where
  "plain_text s =
     (s \<noteq> [] \<and> list_all (\<lambda>c. c \<in> set ascii_lowercase \<or> c \<in> set ascii_uppercase) s
      \<and> map lower_char s \<notin> set reserved_words)"

text \<open>
  A number that a numeric column holds as written: a float with at most six decimal
  places and a magnitude below \<open>10\<^sup>9\<close> (it has at most fifteen significant digits, which
  the parser of \<^verbatim>\<open>read_csv\<close> reads exactly), or an integer of 64 bits.
\<close>

fun plain_float :: "json \<Rightarrow> bool" where
  "plain_float (JFloat x) = (of_int \<lfloor>x * 10 ^ 6\<rfloor> = x * 10 ^ 6 \<and> \<bar>x\<bar> < 10 ^ 9)"
| "plain_float _ = False"

fun csv_int :: "json \<Rightarrow> bool" where
  "csv_int (JInt n) = (- (2 ^ 63) \<le> n \<and> n < 2 ^ 63)"
| "csv_int _ = False"

section \<open>The slide-deck export\<close>

type_synonym slide_row = "json \<times> string \<times> json \<times> json \<times> json"

text \<open>The column selection \<^verbatim>\<open>[['name','symbol','price','change','volume']]\<close>.\<close>

definition project :: "row \<Rightarrow> slide_row" where
  "project r = (name r, symbol r, price r, change r, volume r)"

text \<open>
  \<^verbatim>\<open>df["time"].max()\<close> on the column as read, that is on strings, compared as Python compares
  strings; \<open>None\<close> is the \<^verbatim>\<open>nan\<close> of an empty column.
\<close>

definition latest_time :: "row list \<Rightarrow> string option" where
  "latest_time df = (if df = [] then None else Some (Max (set (map time df))))"

definition latest_df :: "row list \<Rightarrow> slide_row list" where
  "latest_df df = map project (filter (\<lambda>r. Some (time r) = latest_time df) df)"

record deck =
  deck_title :: string
  deck_columns :: "string list"
  deck_rows :: "slide_row list"

definition ppt :: "state \<Rightarrow> failure + deck" where
  "ppt st =
     (case csv_file st of
        None \<Rightarrow> Inl (NotFound ''No data yet'')
      | Some ls \<Rightarrow>
          (case read_csv ls of
             None \<Rightarrow> Inl Uncaught
           | Some df \<Rightarrow>
               Inr \<lparr> deck_title =
                       ''Crypto Report - '' @ (case latest_time df of None \<Rightarrow> ''nan'' | Some t \<Rightarrow> t),
                     deck_columns = [''name'', ''symbol'', ''price'', ''change'', ''volume''],
                     deck_rows = latest_df df \<rparr>))"

section \<open>Capture times as calendar values\<close>

definition is_digit :: "char \<Rightarrow> bool" where
  "is_digit c = (c \<in> set ''0123456789'')"

definition digit_val :: "char \<Rightarrow> nat" where
  "digit_val c = (case map_of (zip ''0123456789'' [0..<10]) c of None \<Rightarrow> 0 | Some d \<Rightarrow> d)"

definition nat_of_digits :: "string \<Rightarrow> nat" where
  "nat_of_digits s = foldl (\<lambda>a c. 10 * a + digit_val c) 0 s"

text \<open>The fixed format \<^verbatim>\<open>YYYY-MM-DD HH:MM:SS\<close> of the time column.\<close>

definition time_format :: "string \<Rightarrow> bool" where
  "time_format s =
     (length s = 19
      \<and> list_all is_digit (take 4 s) \<and> s ! 4 = CHR ''-''
      \<and> list_all is_digit (take 2 (drop 5 s)) \<and> s ! 7 = CHR ''-''
      \<and> list_all is_digit (take 2 (drop 8 s)) \<and> s ! 10 = CHR '' ''
      \<and> list_all is_digit (take 2 (drop 11 s)) \<and> s ! 13 = CHR '':''
      \<and> list_all is_digit (take 2 (drop 14 s)) \<and> s ! 16 = CHR '':''
      \<and> list_all is_digit (take 2 (drop 17 s)))"

text \<open>
  The calendar reading of a time: year, month, day, hour, minute, second, ordered
  lexicographically, which is the chronological order of naive local times. It is what
  \<^verbatim>\<open>parse_dates=["time"]\<close> makes of a time of the fixed format; the reading of any other
  string is not meaningful.
\<close>

type_synonym calendar = "nat \<times> nat \<times> nat \<times> nat \<times> nat \<times> nat"

definition parse_time :: "string \<Rightarrow> calendar" where
  "parse_time s =
     (nat_of_digits (take 4 s), nat_of_digits (take 2 (drop 5 s)),
      nat_of_digits (take 2 (drop 8 s)), nat_of_digits (take 2 (drop 11 s)),
      nat_of_digits (take 2 (drop 14 s)), nat_of_digits (take 2 (drop 17 s)))"

text \<open>
  The Gregorian calendar, independently of how a date is computed: leap years, the lengths
  of the months, and the number of a day counted from 1970-01-01 as the days of the years
  before, of the months before and of the month.
\<close>

definition leap :: "int \<Rightarrow> bool" where
  "leap y = (y mod 4 = 0 \<and> (y mod 100 \<noteq> 0 \<or> y mod 400 = 0))"

definition month_lengths :: "int \<Rightarrow> int list" where
  "month_lengths y = [31, if leap y then 29 else 28, 31, 30, 31, 30, 31, 31, 30, 31, 30, 31]"

definition days_before_year :: "int \<Rightarrow> int" where
  "days_before_year y =
     365 * (y - 1970) + ((y - 1) div 4 - (y - 1) div 100 + (y - 1) div 400) - 477"

definition day_number :: "int \<times> int \<times> int \<Rightarrow> int" where
  "day_number date =
     (case date of (y, m, d) \<Rightarrow>
        days_before_year y + sum_list (take (nat (m - 1)) (month_lengths y)) + (d - 1))"

definition valid_date :: "int \<times> int \<times> int \<Rightarrow> bool" where
  "valid_date date =
     (case date of (y, m, d) \<Rightarrow>
        1 \<le> m \<and> m \<le> 12 \<and> 1 \<le> d \<and> d \<le> month_lengths y ! nat (m - 1))"

text \<open>
  A time of the fixed format that names a moment: a date of the calendar and a time of
  day. These are the strings \<^verbatim>\<open>parse_dates\<close> reads as the time they spell.
\<close>

definition valid_time :: "string \<Rightarrow> bool" where
  "valid_time s =
     (time_format s
      \<and> (case parse_time s of
           (y, mo, d, h, mi, se) \<Rightarrow>
             1 \<le> y \<and> valid_date (int y, int mo, int d) \<and> h < 24 \<and> mi < 60 \<and> se < 60))"

text \<open>
  A plain row: the time is a valid time, name and symbol are plain text, price and
  change are plain floats. Plain rows: every row is plain and the volume column is of one
  kind, integers throughout or plain floats throughout (a column that mixes them comes
  back as floats).
\<close>

definition plain_row :: "row \<Rightarrow> bool" where
  "plain_row r =
     (valid_time (time r)
      \<and> (case name r of JStr n \<Rightarrow> plain_text n | _ \<Rightarrow> False)
      \<and> plain_text (symbol r)
      \<and> plain_float (price r) \<and> plain_float (change r))"

definition plain_rows :: "row list \<Rightarrow> bool" where
  "plain_rows df =
     (list_all plain_row df
      \<and> (list_all (\<lambda>r. csv_int (volume r)) df \<or> list_all (\<lambda>r. plain_float (volume r)) df))"

text \<open>
  The latest snapshot in the words of the specification: the rows whose capture time is
  the maximum capture time, projected to the five fields.
\<close>

definition latest_snapshot_spec :: "row list \<Rightarrow> slide_row list" where
  "latest_snapshot_spec rows =
     (let maxTime = Max (set (map (\<lambda>r. parse_time (time r)) rows))
      in map project (filter (\<lambda>r. parse_time (time r) = maxTime) rows))"

section \<open>The volatility chart\<close>

text \<open>
  The price column as \<^verbatim>\<open>read_csv\<close> types it: a number or a missing value (\<^verbatim>\<open>nan\<close>, here
  \<open>None\<close>) in a numeric column. Any other cell leaves the whole column as text, on which
  the arithmetic of \<^verbatim>\<open>pct_change\<close> raises.
\<close>

fun numeric_cell :: "json \<Rightarrow> bool" where
  "numeric_cell (JInt n) = True"
| "numeric_cell (JFloat x) = True"
| "numeric_cell JNull = True"
| "numeric_cell _ = False"

fun float_cell :: "json \<Rightarrow> real option" where
  "float_cell (JInt n) = Some (of_int n)"
| "float_cell (JFloat x) = Some x"
| "float_cell _ = None"

text \<open>Forward fill: a missing value takes the last value before it.\<close>

fun ffill :: "real option \<Rightarrow> real option list \<Rightarrow> real option list" where
  "ffill prev [] = []"
| "ffill prev (None # xs) = prev # ffill prev xs"
| "ffill prev (Some x # xs) = Some x # ffill (Some x) xs"

text \<open>
  One return, \<^verbatim>\<open>cur / prev - 1\<close>. It is missing when a price is missing; a previous price
  of zero gives \<^verbatim>\<open>inf\<close> or \<^verbatim>\<open>nan\<close>, and \<^verbatim>\<open>rolling\<close> reads \<^verbatim>\<open>inf\<close> as missing, so that
  case is \<open>None\<close> as well.
\<close>

definition ratio :: "real option \<Rightarrow> real option \<Rightarrow> real option" where
  "ratio prev cur =
     (case (prev, cur) of
        (Some a, Some b) \<Rightarrow> if a = 0 then None else Some (b / a - 1)
      | _ \<Rightarrow> None)"

text \<open>
  \<^verbatim>\<open>Series.pct_change()\<close>. Whether missing prices are forward-filled first is the default of
  the installed pandas (filled before version 3, not since), which the repository does
  not pin: it is the parameter \<open>pad\<close>.
\<close>

definition pct_change :: "bool \<Rightarrow> real option list \<Rightarrow> real option list" where
  "pct_change pad ps =
     (let data = (if pad then ffill None ps else ps)
      in case data of
           [] \<Rightarrow> []
         | _ # rest \<Rightarrow> None # map (\<lambda>(prev, cur). ratio prev cur) (zip data rest))"

text \<open>The trailing window of at most \<open>w\<close> entries that ends at position \<open>i\<close>.\<close>

definition window :: "nat \<Rightarrow> 'a list \<Rightarrow> nat \<Rightarrow> 'a list" where
  "window w xs i = drop (Suc i - w) (take (Suc i) xs)"

definition mean :: "real list \<Rightarrow> real" where
  "mean xs = sum_list xs / real (length xs)"

text \<open>The sample standard deviation (\<^verbatim>\<open>ddof=1\<close>).\<close>

definition sample_std :: "real list \<Rightarrow> real" where
  "sample_std xs = sqrt (sum_list (map (\<lambda>x. (x - mean xs)\<^sup>2) xs) / (real (length xs) - 1))"

text \<open>
  \<^verbatim>\<open>rolling(w).std()\<close>: \<^verbatim>\<open>min_periods\<close> defaults to the window size, so a window with fewer
  than \<open>w\<close> present values gives no value.
\<close>

definition rolling_std :: "nat \<Rightarrow> real option list \<Rightarrow> real option list" where
  "rolling_std w xs =
     map (\<lambda>i. let obs = List.map_filter id (window w xs i)
              in if length obs < w then None else Some (sample_std obs))
       [0..<length xs]"

record figure =
  fig_title :: string
  fig_x :: "string list"
  fig_y :: "real option list"

text \<open>
  The route \<^verbatim>\<open>/chart/<symbol>\<close>. The rows are sorted by the parsed time; rows with equal
  times stay in file order here (pandas does not promise an order for them).
\<close>

definition chart :: "bool \<Rightarrow> state \<Rightarrow> string \<Rightarrow> failure + figure" where
  "chart pad st symbol_arg =
     (case csv_file st of
        None \<Rightarrow> Inl (NotFound ''No data yet'')
      | Some ls \<Rightarrow>
          (case read_csv ls of
             None \<Rightarrow> Inl Uncaught
           | Some df0 \<Rightarrow>
               (let df = filter (\<lambda>r. upper (symbol r) = upper symbol_arg) df0 in
                if df = [] then Inl (NotFound ''No data for this symbol'')
                else
                  (let sorted = sort_key (\<lambda>r. parse_time (time r)) df in
                   if \<not> list_all (\<lambda>r. numeric_cell (price r)) df0 then Inl Uncaught
                   else
                     (let returns = pct_change pad (map (\<lambda>r. float_cell (price r)) sorted);
                          rolling_vol =
                            map (map_option (\<lambda>s. s * sqrt 252)) (rolling_std 10 returns)
                      in Inr \<lparr> fig_title = upper symbol_arg @ '' Volatility'',
                               fig_x = map time sorted,
                               fig_y = rolling_vol \<rparr>)))))"

text \<open>The price of a row as a number, for stating what the chart plots.\<close>

definition price_value :: "row \<Rightarrow> real" where
  "price_value r = (case float_cell (price r) of None \<Rightarrow> 0 | Some x \<Rightarrow> x)"

section \<open>The seven-day price feed\<close>

text \<open>\<^verbatim>\<open>p[i]\<close> for a literal index.\<close>

fun py_index :: "json \<Rightarrow> nat \<Rightarrow> exn + json" where
  "py_index (JArr xs) i = (if i < length xs then Inr (xs ! i) else Inl IndexError)"
| "py_index (JStr s) i = (if i < length s then Inr (JStr [s ! i]) else Inl IndexError)"
| "py_index (JObj kvs) i = Inl KeyError"
| "py_index _ i = Inl TypeError"

text \<open>
  The number of milliseconds that \<^verbatim>\<open>pd.to_datetime(v, unit="ms")\<close> reads from a value. A
  fractional number is cut to whole milliseconds here; text is taken not to convert.
\<close>

fun millis :: "json \<Rightarrow> exn + int" where
  "millis (JInt n) = Inr n"
| "millis (JFloat x) = Inr \<lfloor>x\<rfloor>"
| "millis JNull = Inl ValueError"
| "millis (JStr s) = Inl ValueError"
| "millis _ = Inl TypeError"

text \<open>A date written as \<^verbatim>\<open>%Y-%m-%d\<close>, the year in four digits.\<close>

definition date_text :: "int \<times> int \<times> int \<Rightarrow> string" where
  "date_text date =
     (case date of (y, m, d) \<Rightarrow> pad4 (nat y) @ ''-'' @ pad2 (nat m) @ ''-'' @ pad2 (nat d))"

text \<open>
  The date of a day number, computed by search: the year by counting up from 1677, the
  first year a timestamp of 64-bit nanoseconds reaches, and the month by counting through
  the months of that year. That this is the date the calendar above gives the day is
  proved below.
\<close>

fun year_from :: "nat \<Rightarrow> int \<Rightarrow> int \<Rightarrow> int" where
  "year_from 0 y z = y"
| "year_from (Suc n) y z =
     (if days_before_year (y + 1) \<le> z then year_from n (y + 1) z else y)"

fun month_from :: "int list \<Rightarrow> int \<Rightarrow> int \<Rightarrow> int \<times> int" where
  "month_from [] m r = (m, r + 1)"
| "month_from (l # ls) m r = (if r < l then (m, r + 1) else month_from ls (m + 1) (r - l))"

definition date_of_day :: "int \<Rightarrow> int \<times> int \<times> int" where
  "date_of_day z =
     (let y = year_from 600 1677 z;
          (m, d) = month_from (month_lengths y) 1 (z - days_before_year y)
      in (y, m, d))"

text \<open>
  The timestamp of a number of milliseconds since the epoch, in UTC. A timestamp of
  nanoseconds in 64 bits ends in 1677 and 2262; beyond, the conversion raises (as pandas
  does before version 3; later versions fall back to a coarser unit there, which is not
  modelled).
\<close>

definition to_datetime :: "int \<Rightarrow> exn + datetime" where
  "to_datetime ms =
     (if ms < - 9223372036854 \<or> 9223372036854 < ms then Inl OutOfBoundsDatetime
      else
        (let days = ms div 86400000;
             rest = ms mod 86400000;
             (y, m, d) = date_of_day days
         in Inr \<lparr> year = nat y, month = nat m, day = nat d,
                  hour = nat (rest div 3600000),
                  minute = nat (rest div 60000 mod 60),
                  second = nat (rest div 1000 mod 60) \<rparr>))"

text \<open>\<^verbatim>\<open>strftime("%Y-%m-%d")\<close>.\<close>

definition strftime_date :: "datetime \<Rightarrow> string" where
  "strftime_date t = year_string (year t) @ ''-'' @ pad2 (month t) @ ''-'' @ pad2 (day t)"

text \<open>Rounding to the nearest integer, a tie going to the even neighbour.\<close>

definition round_half_even :: "real \<Rightarrow> int" where
  "round_half_even y =
     (let f = \<lfloor>y\<rfloor>; d = y - of_int f
      in if d < 1 / 2 then f
         else if 1 / 2 < d then f + 1
         else if even f then f else f + 1)"

text \<open>
  The binary float (64 bits, round to nearest, ties to even) that a decimal number stands
  for: the exponent is found by halving or doubling, the unit in the last place is 52
  binary places below it (and no smaller than the subnormal one), and the number is
  rounded to a multiple of that unit. Overflow to infinity is not modelled.
\<close>

fun float_exponent :: "nat \<Rightarrow> real \<Rightarrow> int" where
  "float_exponent 0 a = 0"
| "float_exponent (Suc n) a =
     (if a < 1 then float_exponent n (2 * a) - 1
      else if 2 \<le> a then float_exponent n (a / 2) + 1
      else 0)"

definition pow2 :: "int \<Rightarrow> real" where
  "pow2 e = (if 0 \<le> e then 2 ^ nat e else 1 / 2 ^ nat (- e))"

definition double_of :: "real \<Rightarrow> real" where
  "double_of x =
     (if x = 0 then 0
      else
        (let e = max (float_exponent 1100 \<bar>x\<bar>) (- 1022);
             ulp = pow2 (e - 52)
         in of_int (round_half_even (x / ulp)) * ulp))"

text \<open>
  \<^verbatim>\<open>round(v, 2)\<close>: an integer (and a boolean, which is one) comes back as an integer; a float
  is rounded, from its exact binary value, to the nearest number of two decimals, a tie
  going to the even one; anything else has no \<^verbatim>\<open>__round__\<close>. The float that results is
  written by that number of two decimals as long as it has at most 15 digits.
\<close>

fun round2 :: "json \<Rightarrow> exn + json" where
  "round2 (JInt n) = Inr (JInt n)"
| "round2 (JBool b) = Inr (JInt (if b then 1 else 0))"
| "round2 (JFloat x) = Inr (JFloat (of_int (round_half_even (double_of x * 100)) / 100))"
| "round2 _ = Inl TypeError"

text \<open>One element of the list comprehension of lines 139 to 145.\<close>

definition clean_point :: "json \<Rightarrow> exn + (string \<times> json)" where
  "clean_point p =
     (case py_index p 0 of
        Inl e \<Rightarrow> Inl e
      | Inr t \<Rightarrow>
          (case millis t of
             Inl e \<Rightarrow> Inl e
           | Inr ms \<Rightarrow>
               (case to_datetime ms of
                  Inl e \<Rightarrow> Inl e
                | Inr stamp \<Rightarrow>
                    (case py_index p 1 of
                       Inl e \<Rightarrow> Inl e
                     | Inr v \<Rightarrow>
                         (case round2 v of
                            Inl e \<Rightarrow> Inl e
                          | Inr rounded \<Rightarrow> Inr (strftime_date stamp, rounded))))))"

fun cleaned :: "json list \<Rightarrow> exn + (string \<times> json) list" where
  "cleaned [] = Inr []"
| "cleaned (p # ps) =
     (case clean_point p of
        Inl e \<Rightarrow> Inl e
      | Inr c \<Rightarrow> (case cleaned ps of Inl e \<Rightarrow> Inl e | Inr cs \<Rightarrow> Inr (c # cs)))"

text \<open>The route \<^verbatim>\<open>/btc_history\<close>; its payload is the list of date and price pairs.\<close>

definition btc_history :: "upstream \<Rightarrow> failure + (string \<times> json) list" where
  "btc_history u =
     (case try_request u of
        None \<Rightarrow> Inr []
      | Some data \<Rightarrow>
          (case data of
             JObj kvs \<Rightarrow>
               (case py_iter (dict_get kvs ''prices'' (JArr [])) of
                  Inl e \<Rightarrow> Inl Uncaught
                | Inr prices \<Rightarrow>
                    (case cleaned prices of
                       Inl e \<Rightarrow> Inl Uncaught
                     | Inr points \<Rightarrow> Inr points))
           | _ \<Rightarrow> Inl Uncaught))"

section \<open>Example data\<close>

definition btc_coin :: json where
  "btc_coin = JObj [(''name'', JStr ''Bitcoin''), (''symbol'', JStr ''btc''),
                    (''current_price'', JFloat 50000), (''total_volume'', JInt 1000)]"

definition eth_coin :: json where
  "eth_coin = JObj [(''name'', JStr ''Ethereum''), (''symbol'', JStr ''eth''),
                    (''current_price'', JFloat 3000), (''total_volume'', JInt 500)]"

definition two_assets :: upstream where
  "two_assets = Got \<lparr>status_code = 200, body = Some (JArr [btc_coin, eth_coin])\<rparr>"

text \<open>A response of status 200 whose one asset has a null symbol, and one without assets.\<close>

definition null_symbol :: upstream where
  "null_symbol =
     Got \<lparr>status_code = 200,
          body = Some (JArr [JObj [(''name'', JStr ''Bitcoin''), (''symbol'', JNull)]])\<rparr>"

definition no_assets :: upstream where
  "no_assets = Got \<lparr>status_code = 200, body = Some (JArr [])\<rparr>"

definition ok_response :: upstream where
  "ok_response = Got \<lparr>status_code = 200, body = Some (JArr [btc_coin])\<rparr>"

definition error_object :: upstream where
  "error_object = Got \<lparr>status_code = 200, body = Some (JObj [(''error'', JStr ''busy'')])\<rparr>"

definition noon :: datetime where
  "noon = \<lparr>year = 2024, month = 1, day = 5, hour = 12, minute = 0, second = 0\<rparr>"

definition half_past :: datetime where
  "half_past = \<lparr>year = 2024, month = 1, day = 5, hour = 12, minute = 0, second = 30\<rparr>"

definition btc_row :: "string \<Rightarrow> row" where
  "btc_row t = \<lparr>time = t, name = JStr ''Bitcoin'', symbol = ''BTC'',
                 price = JFloat 50000, change = JFloat 0, volume = JInt 1000\<rparr>"

definition fresh :: state where
  "fresh = \<lparr>last_snapshot = [], csv_file = None\<rparr>"

definition cached :: state where
  "cached = \<lparr>last_snapshot = [btc_row ''2024-01-05 11:59:30''],
              csv_file = Some [Header csv_columns, Data (btc_row ''2024-01-05 11:59:30'')]\<rparr>"

definition null_change :: "(string \<times> json) list" where
  "null_change = [(''price_change_percentage_24h'', JNull)]"

definition eth_row :: "string \<Rightarrow> row" where
  "eth_row t = \<lparr>time = t, name = JStr ''Ethereum'', symbol = ''ETH'',
                 price = JFloat 3000, change = JFloat 0, volume = JInt 500\<rparr>"

text \<open>Two assets captured together, then one of them alone.\<close>

definition two_captures :: "row list" where
  "two_captures = [btc_row ''2024-01-05 12:00:00'', eth_row ''2024-01-05 12:00:00'',
                   btc_row ''2024-01-05 12:00:30'']"

definition logged :: state where
  "logged = \<lparr>last_snapshot = [], csv_file = Some (Header csv_columns # map Data two_captures)\<rparr>"

text \<open>
  The store after a capture that found no asset (it writes the header of a table without
  columns) and a capture of one asset.
\<close>

definition headerless :: state where
  "headerless =
     run_captures [(no_assets, noon, Writes), (ok_response, half_past, Writes)] fresh"

definition btc_priced :: "string \<Rightarrow> real \<Rightarrow> row" where
  "btc_priced t p = \<lparr>time = t, name = JStr ''Bitcoin'', symbol = ''BTC'',
                      price = JFloat p, change = JFloat 0, volume = JInt 1000\<rparr>"

text \<open>Twelve consecutive captures of one asset.\<close>

definition twelve_rows :: "row list" where
  "twelve_rows =
     [btc_priced ''2024-01-05 12:00:00'' 100, btc_priced ''2024-01-05 12:00:30'' 101,
      btc_priced ''2024-01-05 12:01:00'' 99, btc_priced ''2024-01-05 12:01:30'' 102,
      btc_priced ''2024-01-05 12:02:00'' 98, btc_priced ''2024-01-05 12:02:30'' 103,
      btc_priced ''2024-01-05 12:03:00'' 97, btc_priced ''2024-01-05 12:03:30'' 104,
      btc_priced ''2024-01-05 12:04:00'' 96, btc_priced ''2024-01-05 12:04:30'' 105,
      btc_priced ''2024-01-05 12:05:00'' 95, btc_priced ''2024-01-05 12:05:30'' 106]"

definition twelve :: state where
  "twelve = \<lparr>last_snapshot = [], csv_file = Some (Header csv_columns # map Data twelve_rows)\<rparr>"

text \<open>The price point of property P5, and a second point later on the same day.\<close>

definition chart_feed :: upstream where
  "chart_feed =
     Got \<lparr>status_code = 200,
          body = Some (JObj [(''prices'',
                   JArr [JArr [JInt 1700000000000, JFloat 42.567],
                         JArr [JInt 1700000001000, JFloat 42.125]])])\<rparr>"

text \<open>A price that lies, as a decimal, halfway between two numbers of two decimals.\<close>

definition halfway_feed :: upstream where
  "halfway_feed =
     Got \<lparr>status_code = 200,
          body = Some (JObj [(''prices'', JArr [JArr [JInt 1700000000000, JFloat 2.675]])])\<rparr>"

text \<open>A response of status 200 with a price that is null, and one that is not an object.\<close>

definition null_price_feed :: upstream where
  "null_price_feed =
     Got \<lparr>status_code = 200,
          body = Some (JObj [(''prices'', JArr [JArr [JInt 1700000000000, JNull]])])\<rparr>"

definition list_feed :: upstream where
  "list_feed = Got \<lparr>status_code = 200, body = Some (JArr [])\<rparr>"

section \<open>Properties of the snapshot fetcher\<close>

lemma upper_char_not_lower: "upper_char c \<notin> set ascii_lowercase"
proof (cases "c \<in> set ascii_lowercase")
  case True
  then show ?thesis
    unfolding ascii_lowercase_def upper_char_def ascii_uppercase_def by auto
next
  case False
  then have "map_of (zip ascii_lowercase ascii_uppercase) c = None"
    by (simp add: map_of_eq_None_iff ascii_lowercase_def ascii_uppercase_def)
  with False show ?thesis by (simp add: upper_char_def)
qed

lemma line_rows_map_Data: "line_rows (map Data rows) = rows"
  by (induction rows) simp_all

lemma line_rows_append: "line_rows (ls @ map Data rows) = line_rows ls @ rows"
  by (induction ls rule: line_rows.induct) (simp_all add: line_rows_map_Data)

lemma header_count_map_Data: "header_count (map Data rows) = 0"
  by (induction rows) simp_all

lemma header_count_append: "header_count (ls @ map Data rows) = header_count ls"
  by (induction ls rule: header_count.induct) (simp_all add: header_count_map_Data)

text \<open>The loop returns normally exactly when every element yields a row, and then appends
  the rows in order.\<close>

lemma build_rows_iff:
  "build_rows now coins acc = Inr rows \<longleftrightarrow>
     (\<exists>new. rows = acc @ new \<and> list_all2 (\<lambda>c r. make_row now c = Inr r) coins new)"
proof (induction coins arbitrary: acc)
  case Nil
  then show ?case by auto
next
  case (Cons c cs)
  show ?case
  proof (cases "make_row now c")
    case (Inl e)
    then show ?thesis by (auto simp: list_all2_Cons1)
  next
    case (Inr r)
    then show ?thesis by (auto simp: Cons.IH list_all2_Cons1)
  qed
qed

lemma make_row_contract:
  assumes "contract_coin c"
  obtains kvs s r where "c = JObj kvs" "dict_get kvs ''symbol'' (JStr '''') = JStr s" "ascii s"
    "make_row now c = Inr r" "time r = now" "symbol r = upper s"
    "dict_lookup kvs ''price_change_percentage_24h'' = None \<longrightarrow> change r = JFloat 0"
  using assms
  by (auto simp: contract_coin_def make_row_def dict_get_def split: json.splits)




text \<open>The one place where the state changes: the rows are built, then cached, then written.\<close>

lemma fetch_built:
  assumes "try_request u = Some data" "py_iter data = Inr coins"
    "build_rows (strftime clock) coins [] = Inr rows"
  shows "fetch_crypto_data u clock Writes st
           = (Inr rows, \<lparr>last_snapshot = rows, csv_file = Some (to_csv rows (csv_file st))\<rparr>)"
    and "fetch_crypto_data u clock Refuses st
           = (Inl OSError, \<lparr>last_snapshot = rows, csv_file = csv_file st\<rparr>)"
  using assms by (simp_all add: fetch_crypto_data_def)

lemma fetch_not_built:
  assumes "try_request u = None \<or> (\<exists>data. try_request u = Some data
             \<and> (\<forall>coins. py_iter data = Inr coins
                    \<longrightarrow> (\<exists>e. build_rows (strftime clock) coins [] = Inl e)))"
  shows "snd (fetch_crypto_data u clock d st) = st"
  using assms by (auto simp: fetch_crypto_data_def split: sum.splits)

lemmas fetch_eval = fetch_crypto_data_def try_request_def raise_for_status_def make_row_def
  dict_get_def dict_lookup_def upper_def upper_char_def ascii_lowercase_def ascii_uppercase_def
  strftime_def year_string_def pad2_def pad4_def digit_char_def Let_def to_csv_def columns_def
  btc_coin_def eth_coin_def btc_row_def eth_row_def ok_response_def two_assets_def
  error_object_def null_symbol_def no_assets_def noon_def half_past_def




lemma fetch_two_assets:
  "fetch_crypto_data two_assets noon Writes fresh =
     (Inr [btc_row ''2024-01-05 12:00:00'', eth_row ''2024-01-05 12:00:00''],
      \<lparr>last_snapshot = [btc_row ''2024-01-05 12:00:00'', eth_row ''2024-01-05 12:00:00''],
       csv_file = Some [Header csv_columns, Data (btc_row ''2024-01-05 12:00:00''),
                        Data (eth_row ''2024-01-05 12:00:00'')]\<rparr>)"
  by (simp add: fetch_eval fresh_def)

text \<open>
  C4, as the code has it. When the response parses to a list of assets of the contracted
  shape (objects whose symbol is absent or an ASCII string), the call builds one row per
  asset, in order: these rows become the cache, and they are what the call returns when
  the disk takes the write. Every row carries the one formatted reading of the clock; its
  symbol is the asset's symbol upper-cased (no lower-case letter is left); and an asset
  without a 24h change gets the change 0.0.
\<close>

theorem capture_one_row_per_asset:
  assumes ok: "try_request u = Some (JArr coins)"
    and shape: "\<forall>c \<in> set coins. contract_coin c"
  shows "\<exists>rows. last_snapshot (snd (fetch_crypto_data u clock d st)) = rows
           \<and> (d = Writes \<longrightarrow> fst (fetch_crypto_data u clock d st) = Inr rows)
           \<and> length rows = length coins
           \<and> (\<forall>i < length coins.
                 time (rows ! i) = strftime clock
               \<and> (\<exists>kvs s. coins ! i = JObj kvs
                     \<and> dict_get kvs ''symbol'' (JStr '''') = JStr s
                     \<and> symbol (rows ! i) = upper s
                     \<and> (\<forall>ch \<in> set (symbol (rows ! i)). ch \<notin> set ascii_lowercase)
                     \<and> (dict_lookup kvs ''price_change_percentage_24h'' = None
                          \<longrightarrow> change (rows ! i) = JFloat 0)))"
proof -
  define now where "now = strftime clock"
  have "\<forall>c \<in> set coins. \<exists>r. make_row now c = Inr r"
    using shape by (meson make_row_contract)
  then obtain rows where all2: "list_all2 (\<lambda>c r. make_row now c = Inr r) coins rows"
    by (induction coins) (auto simp: list_all2_Cons1)
  then have built: "build_rows (strftime clock) coins [] = Inr rows"
    by (simp add: build_rows_iff now_def)
  have len: "length rows = length coins"
    using all2 by (simp add: list_all2_lengthD)
  have pt: "time (rows ! i) = strftime clock
               \<and> (\<exists>kvs s. coins ! i = JObj kvs
                     \<and> dict_get kvs ''symbol'' (JStr '''') = JStr s
                     \<and> symbol (rows ! i) = upper s
                     \<and> (\<forall>ch \<in> set (symbol (rows ! i)). ch \<notin> set ascii_lowercase)
                     \<and> (dict_lookup kvs ''price_change_percentage_24h'' = None
                          \<longrightarrow> change (rows ! i) = JFloat 0))" if i: "i < length coins" for i
  proof -
    have mk: "make_row now (coins ! i) = Inr (rows ! i)"
      by (rule list_all2_nthD [OF all2 i])
    have "contract_coin (coins ! i)" using shape i by simp
    then obtain kvs s r where c: "coins ! i = JObj kvs" "dict_get kvs ''symbol'' (JStr '''') = JStr s"
      "make_row now (coins ! i) = Inr r" "time r = now" "symbol r = upper s"
      "dict_lookup kvs ''price_change_percentage_24h'' = None \<longrightarrow> change r = JFloat 0"
      by (rule make_row_contract)
    with mk have r: "r = rows ! i" by simp
    have "\<forall>ch \<in> set (upper s). ch \<notin> set ascii_lowercase"
      by (auto simp: upper_def upper_char_not_lower)
    with c r show ?thesis by (auto simp: now_def)
  qed
  have iter: "py_iter (JArr coins) = Inr coins" by simp
  have "last_snapshot (snd (fetch_crypto_data u clock d st)) = rows"
    using fetch_built [OF ok iter built, of st] by (cases d) simp_all
  moreover have "d = Writes \<longrightarrow> fst (fetch_crypto_data u clock d st) = Inr rows"
    using fetch_built(1) [OF ok iter built, of st] by simp
  ultimately show ?thesis using len pt by blast
qed

theorem capture_one_row_per_asset_witness:
  "try_request two_assets = Some (JArr [btc_coin, eth_coin])
   \<and> contract_coin btc_coin \<and> contract_coin eth_coin
   \<and> fetch_crypto_data two_assets noon Writes fresh =
       (Inr [btc_row ''2024-01-05 12:00:00'', eth_row ''2024-01-05 12:00:00''],
        \<lparr>last_snapshot = [btc_row ''2024-01-05 12:00:00'', eth_row ''2024-01-05 12:00:00''],
         csv_file = Some [Header csv_columns, Data (btc_row ''2024-01-05 12:00:00''),
                          Data (eth_row ''2024-01-05 12:00:00'')]\<rparr>)
   \<and> time (btc_row ''2024-01-05 12:00:00'') = strftime noon
   \<and> time (eth_row ''2024-01-05 12:00:00'') = strftime noon
   \<and> symbol (btc_row ''2024-01-05 12:00:00'') = ''BTC''
   \<and> symbol (eth_row ''2024-01-05 12:00:00'') = ''ETH''
   \<and> change (eth_row ''2024-01-05 12:00:00'') = JFloat 0"
proof -
  have h1: "try_request two_assets = Some (JArr [btc_coin, eth_coin])"
    by (simp add: try_request_def raise_for_status_def two_assets_def)
  have h2: "contract_coin btc_coin" "contract_coin eth_coin"
    by (simp_all add: contract_coin_def btc_coin_def eth_coin_def dict_get_def dict_lookup_def
        ascii_def)
  then have h3: "\<forall>c \<in> set [btc_coin, eth_coin]. contract_coin c" by simp
  from capture_one_row_per_asset [OF h1 h3, of noon Writes fresh]
  obtain rows where "fst (fetch_crypto_data two_assets noon Writes fresh) = Inr rows"
    and "\<forall>i < length [btc_coin, eth_coin]. time (rows ! i) = strftime noon"
    by blast
  then have "time (btc_row ''2024-01-05 12:00:00'') = strftime noon"
    "time (eth_row ''2024-01-05 12:00:00'') = strftime noon"
    using fetch_two_assets by auto
  with h1 h2 fetch_two_assets show ?thesis by (simp add: btc_row_def eth_row_def)
qed

text \<open>
  C4, as stated, fails: a response of status 200 that parses to a list is a successful
  response, yet with an asset whose symbol is null the call raises and builds no row.
\<close>

theorem null_symbol_counterexample:
  "try_request null_symbol
     = Some (JArr [JObj [(''name'', JStr ''Bitcoin''), (''symbol'', JNull)]])
   \<and> fetch_crypto_data null_symbol noon Writes cached = (Inl AttributeError, cached)"
  by (simp add: fetch_eval)

text \<open>
  C9. A 24h change that is present but null, or falsy in any other way, becomes 0.0; a
  missing name becomes the empty string; a missing volume becomes the integer 0, which is
  not the float 0.0; and an asset without a symbol still yields a row, with the empty
  string as symbol.
\<close>

theorem normalisation_nulls_and_defaults:
  "(\<forall>r. make_row now (JObj kvs) = Inr r \<longrightarrow>
       (dict_lookup kvs ''price_change_percentage_24h'' = Some JNull \<longrightarrow> change r = JFloat 0)
     \<and> (\<forall>v. dict_lookup kvs ''price_change_percentage_24h'' = Some v \<and> \<not> truthy v
            \<longrightarrow> change r = JFloat 0)
     \<and> (dict_lookup kvs ''name'' = None \<longrightarrow> name r = JStr '''')
     \<and> (dict_lookup kvs ''total_volume'' = None
            \<longrightarrow> volume r = JInt 0 \<and> volume r \<noteq> JFloat 0))
   \<and> (dict_lookup kvs ''symbol'' = None
        \<longrightarrow> (\<exists>r. make_row now (JObj kvs) = Inr r \<and> symbol r = ''''))"
  by (auto simp: make_row_def dict_get_def upper_def split: sum.splits)

theorem normalisation_nulls_and_defaults_witness:
  "make_row ''2024-01-05 12:00:00'' (JObj null_change) =
     Inr \<lparr>time = ''2024-01-05 12:00:00'', name = JStr '''', symbol = '''',
          price = JFloat 0, change = JFloat 0, volume = JInt 0\<rparr>
   \<and> dict_lookup null_change ''price_change_percentage_24h'' = Some JNull
   \<and> \<not> truthy JNull
   \<and> dict_lookup null_change ''name'' = None
   \<and> dict_lookup null_change ''symbol'' = None
   \<and> dict_lookup null_change ''total_volume'' = None
   \<and> JInt 0 \<noteq> JFloat 0"
  using normalisation_nulls_and_defaults [of "''2024-01-05 12:00:00''" null_change]
  by (simp add: make_row_def dict_get_def dict_lookup_def null_change_def upper_def)

text \<open>
  C2, as the code has it. When the request raises (no response), or the status is a client
  or server error (400 to 599), or the body does not parse, the call does not raise: it
  returns the cached snapshot and leaves the cache and the file as they were, whatever
  the disk would do.
\<close>

theorem fetch_failure_falls_back:
  assumes "u = NoResponse
           \<or> (\<exists>r. u = Got r \<and> (400 \<le> status_code r \<and> status_code r < 600 \<or> body r = None))"
  shows "fetch_crypto_data u clock d st = (Inr (last_snapshot st), st)"
proof -
  have "try_request u = None"
    using assms by (auto simp: try_request_def raise_for_status_def)
  then show ?thesis by (simp add: fetch_crypto_data_def)
qed

theorem fetch_failure_falls_back_witness:
  "fetch_crypto_data NoResponse noon Writes cached = (Inr (last_snapshot cached), cached)
   \<and> fetch_crypto_data (Got \<lparr>status_code = 503, body = Some (JArr [btc_coin])\<rparr>) noon Writes cached
       = (Inr (last_snapshot cached), cached)
   \<and> fetch_crypto_data (Got \<lparr>status_code = 200, body = None\<rparr>) noon Refuses cached
       = (Inr (last_snapshot cached), cached)"
  using fetch_failure_falls_back [of NoResponse noon Writes cached]
    fetch_failure_falls_back
      [of "Got \<lparr>status_code = 503, body = Some (JArr [btc_coin])\<rparr>" noon Writes cached]
    fetch_failure_falls_back [of "Got \<lparr>status_code = 200, body = None\<rparr>" noon Refuses cached]
  by simp

text \<open>
  C2, as stated, fails: a response with status 300 is not 2xx, yet \<^verbatim>\<open>raise_for_status\<close>
  lets it pass; its body parses, so the call replaces the cache and appends a row.
\<close>

theorem non_2xx_status_counterexample:
  "spec_fetch_failed (Got \<lparr>status_code = 300, body = Some (JArr [btc_coin])\<rparr>)
   \<and> fetch_crypto_data (Got \<lparr>status_code = 300, body = Some (JArr [btc_coin])\<rparr>) noon Writes cached
       \<noteq> (Inr (last_snapshot cached), cached)"
  by (simp add: spec_fetch_failed_def fetch_eval cached_def)




section \<open>The file under repeated captures\<close>

text \<open>One call, by the batch it appends: none leaves the file alone.\<close>

lemma fetch_step:
  "csv_file (snd (fetch_crypto_data u clock d st)) =
     (case fresh_batch u clock d of
        None \<Rightarrow> csv_file st
      | Some rows \<Rightarrow> Some (to_csv rows (csv_file st)))"
  by (cases d)
     (simp_all add: fetch_crypto_data_def fresh_batch_def Let_def split: option.splits sum.splits)

lemma run_captures_file:
  "file_lines (run_captures evs st) =
     (if csv_file st = None
      then (case batches evs of [] \<Rightarrow> [] | b # bs \<Rightarrow> Header (columns b) # map Data (concat (b # bs)))
      else file_lines st @ map Data (concat (batches evs)))"
proof (induction evs arbitrary: st)
  case Nil
  then show ?case by (simp add: batches_def List.map_filter_simps file_lines_def)
next
  case (Cons ev evs)
  obtain u clock d where ev: "ev = (u, clock, d)" by (cases ev)
  define st1 where "st1 = snd (fetch_crypto_data u clock d st)"
  have run: "run_captures (ev # evs) st = run_captures evs st1"
    by (simp add: ev st1_def)
  show ?case
  proof (cases "fresh_batch u clock d")
    case None
    then have "csv_file st1 = csv_file st"
      unfolding st1_def by (subst fetch_step) simp
    with None ev Cons.IH [of st1] run show ?thesis
      by (simp add: batches_def List.map_filter_simps file_lines_def)
  next
    case (Some rows)
    have step: "csv_file st1 = Some (to_csv rows (csv_file st))"
      unfolding st1_def using Some by (subst fetch_step) simp
    have "file_lines (run_captures (ev # evs) st)
            = to_csv rows (csv_file st) @ map Data (concat (batches evs))"
      using Cons.IH [of st1] step run by (simp add: file_lines_def)
    with Some ev show ?thesis
      by (simp add: batches_def List.map_filter_simps file_lines_def to_csv_def split: option.splits)
  qed
qed

lemma batches_example:
  "batches [(ok_response, noon, Writes), (NoResponse, noon, Writes),
            (ok_response, half_past, Refuses), (ok_response, half_past, Writes)] =
     [[btc_row ''2024-01-05 12:00:00''], [btc_row ''2024-01-05 12:00:30'']]"
  by (simp add: batches_def fresh_batch_def List.map_filter_simps fetch_eval)

text \<open>
  C5. After any sequence of calls the file is the file before, followed by the batches
  of the calls that built one and wrote it, in order and as data lines only; a header line
  is put in front only when the file is created, by the first such call. So the lines that
  were there keep their place and content, the file has one header line when the calls
  created it, and with \<open>N\<close> batches of \<open>B\<close> rows each it holds \<open>N * B\<close> rows more.
\<close>

theorem store_is_append_only:
  "file_lines (run_captures evs st) =
       (if csv_file st = None \<and> batches evs \<noteq> [] then [Header (columns (hd (batches evs)))] else [])
         @ file_lines st @ map Data (concat (batches evs))
   \<and> stored_rows (run_captures evs st) = stored_rows st @ concat (batches evs)
   \<and> header_count (file_lines (run_captures evs st)) =
       (if csv_file st = None \<and> batches evs \<noteq> [] then 1 else header_count (file_lines st))
   \<and> ((\<forall>b \<in> set (batches evs). length b = B) \<longrightarrow>
        length (stored_rows (run_captures evs st))
          = length (stored_rows st) + length (batches evs) * B)"
proof -
  have len: "length (concat bs) = length bs * B" if "\<forall>b \<in> set bs. length b = B" for bs :: "row list list"
    using that by (induction bs) simp_all
  have none: "file_lines st = []" if "csv_file st = None"
    using that by (simp add: file_lines_def)
  have lines: "file_lines (run_captures evs st) =
     (if csv_file st = None \<and> batches evs \<noteq> [] then [Header (columns (hd (batches evs)))] else [])
       @ file_lines st @ map Data (concat (batches evs))"
    by (cases "batches evs") (simp_all add: run_captures_file none)
  have rows: "stored_rows (run_captures evs st) = stored_rows st @ concat (batches evs)"
    unfolding stored_rows_def lines by (simp add: line_rows_append)
  have hdrs: "header_count (file_lines (run_captures evs st)) =
       (if csv_file st = None \<and> batches evs \<noteq> [] then 1 else header_count (file_lines st))"
    unfolding lines by (simp add: header_count_append header_count_map_Data none)
  show ?thesis using lines rows hdrs len by simp
qed

theorem store_is_append_only_witness:
  "batches [(ok_response, noon, Writes), (NoResponse, noon, Writes),
            (ok_response, half_past, Refuses), (ok_response, half_past, Writes)] =
     [[btc_row ''2024-01-05 12:00:00''], [btc_row ''2024-01-05 12:00:30'']]
   \<and> length [btc_row ''2024-01-05 12:00:00''] = 1 \<and> length [btc_row ''2024-01-05 12:00:30''] = 1
   \<and> file_lines (run_captures [(ok_response, noon, Writes), (NoResponse, noon, Writes),
            (ok_response, half_past, Refuses), (ok_response, half_past, Writes)] fresh)
       = [Header csv_columns, Data (btc_row ''2024-01-05 12:00:00''),
          Data (btc_row ''2024-01-05 12:00:30'')]
   \<and> header_count (file_lines
        (run_captures [(ok_response, noon, Writes), (NoResponse, noon, Writes),
            (ok_response, half_past, Refuses), (ok_response, half_past, Writes)] fresh)) = 1
   \<and> length (stored_rows
        (run_captures [(ok_response, noon, Writes), (NoResponse, noon, Writes),
            (ok_response, half_past, Refuses), (ok_response, half_past, Writes)] fresh))
       = 0 + 2 * 1
   \<and> file_lines (run_captures [(ok_response, noon, Writes), (NoResponse, noon, Writes),
            (ok_response, half_past, Refuses), (ok_response, half_past, Writes)] cached)
       = [Header csv_columns, Data (btc_row ''2024-01-05 11:59:30''),
          Data (btc_row ''2024-01-05 12:00:00''), Data (btc_row ''2024-01-05 12:00:30'')]
   \<and> length (stored_rows
        (run_captures [(ok_response, noon, Writes), (NoResponse, noon, Writes),
            (ok_response, half_past, Refuses), (ok_response, half_past, Writes)] cached))
       = 1 + 2 * 1"
  using store_is_append_only
      [of "[(ok_response, noon, Writes), (NoResponse, noon, Writes),
            (ok_response, half_past, Refuses), (ok_response, half_past, Writes)]" fresh 1]
    store_is_append_only
      [of "[(ok_response, noon, Writes), (NoResponse, noon, Writes),
            (ok_response, half_past, Refuses), (ok_response, half_past, Writes)]" cached 1]
  by (simp add: batches_example fresh_def cached_def file_lines_def stored_rows_def columns_def)

section \<open>String order and calendar order of capture times\<close>

lemma append_le_iff:
  fixes a c :: "'a::linorder list"
  assumes "length a = length c"
  shows "a @ b \<le> c @ d \<longleftrightarrow> a < c \<or> a = c \<and> b \<le> d"
  using assms by (induction a c rule: list_induct2) auto

lemma digit_val_le: "digit_val c \<le> 9"
  unfolding digit_val_def by (auto simp: upt_conv_Cons split: option.splits dest!: map_of_SomeD)

lemma split_field: "drop k s = take 2 (drop k s) @ drop (2 + k) s"
  by (metis append_take_drop_id drop_drop)

lemma split_sep: "k < length s \<Longrightarrow> drop k s = s ! k # drop (Suc k) s"
  by (simp add: Cons_nth_drop_Suc)

lemma time_split:
  assumes "length s = 19"
  shows "s = take 4 s @ s ! 4 # take 2 (drop 5 s) @ s ! 7 # take 2 (drop 8 s) @ s ! 10 #
             take 2 (drop 11 s) @ s ! 13 # take 2 (drop 14 s) @ s ! 16 # take 2 (drop 17 s)"
proof -
  define M D H Mi S where fields: "M = take 2 (drop 5 s)" "D = take 2 (drop 8 s)"
    "H = take 2 (drop 11 s)" "Mi = take 2 (drop 14 s)" "S = take 2 (drop 17 s)"
  have e4: "drop 4 s = s ! 4 # drop 5 s" using split_sep [of 4 s] assms by simp
  have e5: "drop 5 s = M @ drop 7 s" using split_field [of 5 s] by (simp add: fields)
  have e7: "drop 7 s = s ! 7 # drop 8 s" using split_sep [of 7 s] assms by simp
  have e8: "drop 8 s = D @ drop 10 s" using split_field [of 8 s] by (simp add: fields)
  have e10: "drop 10 s = s ! 10 # drop 11 s" using split_sep [of 10 s] assms by simp
  have e11: "drop 11 s = H @ drop 13 s" using split_field [of 11 s] by (simp add: fields)
  have e13: "drop 13 s = s ! 13 # drop 14 s" using split_sep [of 13 s] assms by simp
  have e14: "drop 14 s = Mi @ drop 16 s" using split_field [of 14 s] by (simp add: fields)
  have e16: "drop 16 s = s ! 16 # drop 17 s" using split_sep [of 16 s] assms by simp
  have e17: "drop 17 s = S" using assms by (simp add: fields)
  have "s = take 4 s @ drop 4 s" by simp
  also have "\<dots> = take 4 s @ s ! 4 # M @ s ! 7 # D @ s ! 10 # H @ s ! 13 # Mi @ s ! 16 # S"
    by (simp only: e4 e5 e7 e8 e10 e11 e13 e14 e16 e17)
  finally show ?thesis by (simp only: fields)
qed

lemma digit_code:
  assumes "is_digit c"
  shows "of_char c = (48::nat) + digit_val c"
  using assms unfolding is_digit_def digit_val_def
  by (auto simp: upt_conv_Cons)

lemma digit_char_order:
  assumes "is_digit a" "is_digit b"
  shows "(a < b \<longleftrightarrow> digit_val a < digit_val b) \<and> (a = b \<longleftrightarrow> digit_val a = digit_val b)"
proof -
  have "a = b \<longleftrightarrow> (of_char a :: nat) = of_char b" by simp
  then show ?thesis
    using digit_code [OF assms(1)] digit_code [OF assms(2)]
    by (simp add: less_char_def)
qed

lemma foldl_digits:
  "foldl (\<lambda>a c. 10 * a + digit_val c) acc s
     = acc * 10 ^ length s + foldl (\<lambda>a c. 10 * a + digit_val c) 0 s"
proof (induction s arbitrary: acc)
  case Nil
  then show ?case by simp
next
  case (Cons x xs)
  show ?case
    using Cons.IH [of "10 * acc + digit_val x"] Cons.IH [of "digit_val x"]
    by (simp add: algebra_simps)
qed

lemma nat_of_digits_Cons:
  "nat_of_digits (x # xs) = digit_val x * 10 ^ length xs + nat_of_digits xs"
  unfolding nat_of_digits_def using foldl_digits [of "digit_val x" xs] by simp

lemma nat_of_digits_less: "nat_of_digits s < 10 ^ length s"
proof (induction s)
  case Nil
  then show ?case by (simp add: nat_of_digits_def)
next
  case (Cons x xs)
  have "digit_val x * 10 ^ length xs \<le> 9 * 10 ^ length xs"
    using digit_val_le by (rule mult_le_mono1)
  moreover have "nat_of_digits xs < 10 ^ length xs" by (rule Cons.IH)
  ultimately have "digit_val x * 10 ^ length xs + nat_of_digits xs < 10 * 10 ^ length xs"
    by linarith
  then show ?case by (simp add: nat_of_digits_Cons)
qed

lemma leading_digit_decides:
  fixes p r r' :: nat
  assumes "r < p" "d < d'"
  shows "d * p + r < d' * p + r'"
proof -
  have "d * p + r < (d + 1) * p" using assms(1) by simp
  also have "\<dots> \<le> d' * p" using assms(2) by (intro mult_le_mono1) simp
  finally show ?thesis by simp
qed

lemma digits_order:
  assumes "length a = length c" "list_all is_digit a" "list_all is_digit c"
  shows "(a < c \<longleftrightarrow> nat_of_digits a < nat_of_digits c)
       \<and> (a = c \<longleftrightarrow> nat_of_digits a = nat_of_digits c)"
  using assms
proof (induction a c rule: list_induct2)
  case Nil
  then show ?case by simp
next
  case (Cons x xs y ys)
  let ?p = "10 ^ length ys :: nat"
  have len: "length xs = length ys" by fact
  have dx: "(x < y \<longleftrightarrow> digit_val x < digit_val y) \<and> (x = y \<longleftrightarrow> digit_val x = digit_val y)"
    using Cons.prems by (simp add: digit_char_order)
  have ih: "(xs < ys \<longleftrightarrow> nat_of_digits xs < nat_of_digits ys)
       \<and> (xs = ys \<longleftrightarrow> nat_of_digits xs = nat_of_digits ys)"
    using Cons by simp
  have bx: "nat_of_digits xs < ?p" using nat_of_digits_less [of xs] len by simp
  have bv: "nat_of_digits ys < ?p" by (rule nat_of_digits_less)
  consider "digit_val x < digit_val y" | "digit_val y < digit_val x" | "digit_val x = digit_val y"
    by linarith
  then show ?case
  proof cases
    case 1
    from leading_digit_decides [OF bx 1, of "nat_of_digits ys"] dx 1
    show ?thesis by (simp add: nat_of_digits_Cons len)
  next
    case 2
    from leading_digit_decides [OF bv 2, of "nat_of_digits xs"] dx 2
    show ?thesis by (auto simp add: nat_of_digits_Cons len)
  next
    case 3
    with dx ih show ?thesis by (simp add: nat_of_digits_Cons len)
  qed
qed

lemma field_step:
  fixes p q :: "'b::linorder"
  assumes "length a = length c" "list_all is_digit a" "list_all is_digit c"
    and rest: "b \<le> d \<longleftrightarrow> p \<le> q"
  shows "a @ sep # b \<le> c @ sep # d \<longleftrightarrow> (nat_of_digits a, p) \<le> (nat_of_digits c, q)"
proof -
  from digits_order [OF assms(1-3)]
  have lt: "a < c \<longleftrightarrow> nat_of_digits a < nat_of_digits c"
    and eq: "a = c \<longleftrightarrow> nat_of_digits a = nat_of_digits c" by simp_all
  have "a @ sep # b \<le> c @ sep # d \<longleftrightarrow> a < c \<or> a = c \<and> b \<le> d"
    by (simp add: append_le_iff [OF assms(1)])
  also have "\<dots> \<longleftrightarrow> nat_of_digits a < nat_of_digits c
                  \<or> nat_of_digits a = nat_of_digits c \<and> p \<le> q"
    by (simp only: lt eq rest)
  also have "\<dots> \<longleftrightarrow> (nat_of_digits a, p) \<le> (nat_of_digits c, q)"
    by (auto simp: less_eq_prod_def)
  finally show ?thesis .
qed

lemma time_le_iff:
  assumes "time_format s" "time_format t"
  shows "s \<le> t \<longleftrightarrow> parse_time s \<le> parse_time t"
proof -
  note fs = assms(1) [unfolded time_format_def] and ft = assms(2) [unfolded time_format_def]
  have ls: "length s = 19" and lt: "length t = 19" using fs ft by simp_all
  have l2: "length (take 2 (drop k s)) = length (take 2 (drop k t))" for k
    by (simp add: ls lt)
  have l4: "length (take 4 s) = length (take 4 t)" by (simp add: ls lt)
  have "take 2 (drop 17 s) < take 2 (drop 17 t) \<or> take 2 (drop 17 s) = take 2 (drop 17 t)
          \<longleftrightarrow> nat_of_digits (take 2 (drop 17 s)) \<le> nat_of_digits (take 2 (drop 17 t))"
    using digits_order [OF l2 [of 17]] fs ft by (simp only: ) linarith
  then have s0: "take 2 (drop 17 s) \<le> take 2 (drop 17 t)
          \<longleftrightarrow> nat_of_digits (take 2 (drop 17 s)) \<le> nat_of_digits (take 2 (drop 17 t))"
    by (simp only: le_less)
  have s1: "take 2 (drop 14 s) @ CHR '':'' # take 2 (drop 17 s)
            \<le> take 2 (drop 14 t) @ CHR '':'' # take 2 (drop 17 t) \<longleftrightarrow>
          (nat_of_digits (take 2 (drop 14 s)), nat_of_digits (take 2 (drop 17 s)))
            \<le> (nat_of_digits (take 2 (drop 14 t)), nat_of_digits (take 2 (drop 17 t)))"
    using fs ft by (intro field_step l2 s0) simp_all
  have s2: "take 2 (drop 11 s) @ CHR '':'' # take 2 (drop 14 s) @ CHR '':'' # take 2 (drop 17 s)
            \<le> take 2 (drop 11 t) @ CHR '':'' # take 2 (drop 14 t) @ CHR '':'' # take 2 (drop 17 t) \<longleftrightarrow>
          (nat_of_digits (take 2 (drop 11 s)), nat_of_digits (take 2 (drop 14 s)), nat_of_digits (take 2 (drop 17 s)))
            \<le> (nat_of_digits (take 2 (drop 11 t)), nat_of_digits (take 2 (drop 14 t)), nat_of_digits (take 2 (drop 17 t)))"
    using fs ft by (intro field_step l2 s1) simp_all
  have s3: "take 2 (drop 8 s) @ CHR '' '' # take 2 (drop 11 s) @ CHR '':'' # take 2 (drop 14 s) @ CHR '':'' # take 2 (drop 17 s)
            \<le> take 2 (drop 8 t) @ CHR '' '' # take 2 (drop 11 t) @ CHR '':'' # take 2 (drop 14 t) @ CHR '':'' # take 2 (drop 17 t) \<longleftrightarrow>
          (nat_of_digits (take 2 (drop 8 s)), nat_of_digits (take 2 (drop 11 s)), nat_of_digits (take 2 (drop 14 s)), nat_of_digits (take 2 (drop 17 s)))
            \<le> (nat_of_digits (take 2 (drop 8 t)), nat_of_digits (take 2 (drop 11 t)), nat_of_digits (take 2 (drop 14 t)), nat_of_digits (take 2 (drop 17 t)))"
    using fs ft by (intro field_step l2 s2) simp_all
  have s4: "take 2 (drop 5 s) @ CHR ''-'' # take 2 (drop 8 s) @ CHR '' '' # take 2 (drop 11 s) @ CHR '':'' # take 2 (drop 14 s) @ CHR '':'' # take 2 (drop 17 s)
            \<le> take 2 (drop 5 t) @ CHR ''-'' # take 2 (drop 8 t) @ CHR '' '' # take 2 (drop 11 t) @ CHR '':'' # take 2 (drop 14 t) @ CHR '':'' # take 2 (drop 17 t) \<longleftrightarrow>
          (nat_of_digits (take 2 (drop 5 s)), nat_of_digits (take 2 (drop 8 s)), nat_of_digits (take 2 (drop 11 s)), nat_of_digits (take 2 (drop 14 s)), nat_of_digits (take 2 (drop 17 s)))
            \<le> (nat_of_digits (take 2 (drop 5 t)), nat_of_digits (take 2 (drop 8 t)), nat_of_digits (take 2 (drop 11 t)), nat_of_digits (take 2 (drop 14 t)), nat_of_digits (take 2 (drop 17 t)))"
    using fs ft by (intro field_step l2 s3) simp_all
  have s5: "take 4 s @ CHR ''-'' # take 2 (drop 5 s) @ CHR ''-'' # take 2 (drop 8 s) @ CHR '' '' # take 2 (drop 11 s) @ CHR '':'' # take 2 (drop 14 s) @ CHR '':'' # take 2 (drop 17 s)
            \<le> take 4 t @ CHR ''-'' # take 2 (drop 5 t) @ CHR ''-'' # take 2 (drop 8 t) @ CHR '' '' # take 2 (drop 11 t) @ CHR '':'' # take 2 (drop 14 t) @ CHR '':'' # take 2 (drop 17 t) \<longleftrightarrow>
          parse_time s \<le> parse_time t"
    unfolding parse_time_def using fs ft by (intro field_step l4 s4) simp_all
  have es: "s = take 4 s @ CHR ''-'' # take 2 (drop 5 s) @ CHR ''-'' # take 2 (drop 8 s) @ CHR '' '' # take 2 (drop 11 s) @ CHR '':'' # take 2 (drop 14 s) @ CHR '':'' # take 2 (drop 17 s)"
    using time_split [OF ls] fs by (simp only: )
  have et: "t = take 4 t @ CHR ''-'' # take 2 (drop 5 t) @ CHR ''-'' # take 2 (drop 8 t) @ CHR '' '' # take 2 (drop 11 t) @ CHR '':'' # take 2 (drop 14 t) @ CHR '':'' # take 2 (drop 17 t)"
    using time_split [OF lt] ft by (simp only: )
  show ?thesis using s5 es et by (simp only: )
qed

lemma time_eq_iff:
  assumes "time_format s" "time_format t"
  shows "s = t \<longleftrightarrow> parse_time s = parse_time t"
  using time_le_iff [OF assms] time_le_iff [OF assms(2) assms(1)]
  by (metis order_antisym order_refl)

section \<open>The latest snapshot\<close>

lemma read_csv_written: "read_csv (Header csv_columns # map Data df) = Some df"
  by (simp add: read_csv_def line_rows_map_Data list_all_iff)

lemma latest_time_in:
  assumes "df \<noteq> []"
  shows "Max (set (map time df)) \<in> set (map time df)"
  using assms by (intro Max_in) simp_all

lemma Max_parse_time:
  assumes "df \<noteq> []" and fmt: "\<forall>r \<in> set df. time_format (time r)"
  shows "parse_time (Max (set (map time df))) = Max (set (map (\<lambda>r. parse_time (time r)) df))"
proof -
  let ?S = "set (map time df)"
  have top: "Max ?S \<in> ?S" by (rule latest_time_in [OF assms(1)])
  have formatted: "time_format t" if "t \<in> ?S" for t using that fmt by auto
  have "Max (parse_time ` ?S) = parse_time (Max ?S)"
  proof (rule Max_eqI)
    show "finite (parse_time ` ?S)" by simp
    show "parse_time (Max ?S) \<in> parse_time ` ?S" using top by (rule imageI)
    fix y assume "y \<in> parse_time ` ?S"
    then obtain t where t: "t \<in> ?S" "y = parse_time t" by auto
    then have "t \<le> Max ?S" by simp
    then show "y \<le> parse_time (Max ?S)"
      using time_le_iff [OF formatted [OF t(1)] formatted [OF top]] t(2) by simp
  qed
  moreover have "parse_time ` ?S = set (map (\<lambda>r. parse_time (time r)) df)"
    by (simp add: image_image)
  ultimately show ?thesis by simp
qed

lemma latest_df_spec:
  assumes "df \<noteq> []" and fmt: "\<forall>r \<in> set df. time_format (time r)"
  shows "latest_df df = latest_snapshot_spec df"
proof -
  let ?m = "Max (set (map time df))"
  have top: "time_format ?m" using latest_time_in [OF assms(1)] fmt by auto
  have "(time r = ?m) = (parse_time (time r) = Max (set (map (\<lambda>r. parse_time (time r)) df)))"
    if "r \<in> set df" for r
    using time_eq_iff [OF _ top, of "time r"] that fmt Max_parse_time [OF assms] by simp
  then have "filter (\<lambda>r. time r = ?m) df
      = filter (\<lambda>r. parse_time (time r) = Max (set (map (\<lambda>r. parse_time (time r)) df))) df"
    by (intro filter_cong) simp_all
  then show ?thesis
    using assms(1) by (simp add: latest_df_def latest_time_def latest_snapshot_spec_def)
qed

lemma ppt_written:
  assumes "csv_file st = Some (Header csv_columns # map Data df)"
  shows "ppt st = Inr \<lparr> deck_title =
                       ''Crypto Report - '' @ (case latest_time df of None \<Rightarrow> ''nan'' | Some t \<Rightarrow> t),
                     deck_columns = [''name'', ''symbol'', ''price'', ''change'', ''volume''],
                     deck_rows = latest_df df \<rparr>"
  using assms by (simp add: ppt_def read_csv_written)

lemma plain_rows_formatted: "plain_rows df \<Longrightarrow> \<forall>r \<in> set df. time_format (time r)"
  by (simp add: plain_rows_def plain_row_def valid_time_def list_all_iff)

text \<open>
  C3, as the code has it. On a file that holds the header of the six columns and at least
  one row, all rows plain (so that they are read back as they were written), the export
  returns the table of exactly the rows whose time is the maximum of the time column, each
  reduced to name, symbol, price, change and volume. In particular, with rows at two times
  \<open>t1 < t2\<close> it returns the rows at \<open>t2\<close>. The maximum is the one of the stored strings,
  which is the maximum of the calendar times.
\<close>

theorem latest_snapshot_rows:
  assumes present: "csv_file st = Some (Header csv_columns # map Data df)" and ne: "df \<noteq> []"
    and plain: "plain_rows df"
  shows "\<exists>d. ppt st = Inr d
           \<and> deck_columns d = [''name'', ''symbol'', ''price'', ''change'', ''volume'']
           \<and> deck_rows d =
               map (\<lambda>r. (name r, symbol r, price r, change r, volume r))
                 (filter (\<lambda>r. time r = Max (set (map time df))) df)
           \<and> (\<forall>t1 t2. t1 < t2 \<and> (\<forall>r \<in> set df. time r = t1 \<or> time r = t2)
                  \<and> (\<exists>r \<in> set df. time r = t2)
                \<longrightarrow> deck_rows d =
                      map (\<lambda>r. (name r, symbol r, price r, change r, volume r))
                        (filter (\<lambda>r. time r = t2) df))
           \<and> deck_rows d =
               map (\<lambda>r. (name r, symbol r, price r, change r, volume r))
                 (filter (\<lambda>r. parse_time (time r)
                                = Max (set (map (\<lambda>r. parse_time (time r)) df))) df)"
proof -
  let ?m = "Max (set (map time df))"
  have proj: "project = (\<lambda>r. (name r, symbol r, price r, change r, volume r))"
    by (rule ext) (simp add: project_def)
  have rows: "latest_df df = map project (filter (\<lambda>r. time r = ?m) df)"
    using ne by (simp add: latest_df_def latest_time_def)
  have two: "\<forall>t1 t2. t1 < t2 \<and> (\<forall>r \<in> set df. time r = t1 \<or> time r = t2)
                  \<and> (\<exists>r \<in> set df. time r = t2)
                \<longrightarrow> latest_df df = map project (filter (\<lambda>r. time r = t2) df)"
  proof (intro allI impI)
    fix t1 t2
    assume h: "t1 < t2 \<and> (\<forall>r \<in> set df. time r = t1 \<or> time r = t2)
                  \<and> (\<exists>r \<in> set df. time r = t2)"
    have "?m = t2"
    proof (rule Max_eqI)
      show "finite (set (map time df))" by simp
      show "t2 \<in> set (map time df)" using h by auto
      fix y assume "y \<in> set (map time df)"
      then have "y = t1 \<or> y = t2" using h by auto
      then show "y \<le> t2" using h by auto
    qed
    then show "latest_df df = map project (filter (\<lambda>r. time r = t2) df)"
      using rows by simp
  qed
  have cal: "latest_df df = map project (filter (\<lambda>r. parse_time (time r)
                                       = Max (set (map (\<lambda>r. parse_time (time r)) df))) df)"
    using latest_df_spec [OF ne plain_rows_formatted [OF plain]]
    by (simp add: latest_snapshot_spec_def)
  show ?thesis
    unfolding ppt_written [OF present] using rows two cal
    by (simp only: proj deck.simps sum.inject simp_thms ex_simps)
qed

text \<open>
  C10. The export takes the maximum of the time column as strings. When every stored time
  has the format \<^verbatim>\<open>YYYY-MM-DD HH:MM:SS\<close>, that string reads as the latest calendar time in
  the file, and the rows the export selects are those of the specification's selection
  by maximum capture time.
\<close>

theorem string_maximum_is_latest_capture:
  assumes ne: "df \<noteq> []" and fmt: "\<forall>r \<in> set df. time_format (time r)"
  shows "latest_time df = Some (Max (set (map time df)))
       \<and> map_option parse_time (latest_time df)
           = Some (Max (set (map (\<lambda>r. parse_time (time r)) df)))
       \<and> latest_df df = latest_snapshot_spec df
       \<and> (csv_file st = Some (Header csv_columns # map Data df)
            \<longrightarrow> map_sum id deck_rows (ppt st) = Inr (latest_snapshot_spec df))"
  using ne Max_parse_time [OF ne fmt] latest_df_spec [OF ne fmt]
  by (auto simp: latest_time_def ppt_written)

lemma time_format_examples:
  "time_format ''2024-01-05 12:00:00''" "time_format ''2024-01-05 12:00:30''"
  by (simp_all add: time_format_def is_digit_def)

lemma parse_time_example: "parse_time ''2024-01-05 12:00:30'' = (2024, 1, 5, 12, 0, 30)"
  by (simp add: parse_time_def nat_of_digits_def digit_val_def upt_conv_Cons)

lemma valid_time_examples:
  "valid_time ''2024-01-05 12:00:00''" "valid_time ''2024-01-05 12:00:30''"
  "valid_time ''2024-01-05 12:01:00''" "valid_time ''2024-01-05 12:01:30''"
  "valid_time ''2024-01-05 12:02:00''" "valid_time ''2024-01-05 12:02:30''"
  "valid_time ''2024-01-05 12:03:00''" "valid_time ''2024-01-05 12:03:30''"
  "valid_time ''2024-01-05 12:04:00''" "valid_time ''2024-01-05 12:04:30''"
  "valid_time ''2024-01-05 12:05:00''" "valid_time ''2024-01-05 12:05:30''"
  by (simp_all add: valid_time_def time_format_def is_digit_def parse_time_def
      nat_of_digits_def digit_val_def upt_conv_Cons valid_date_def month_lengths_def leap_def)

lemma plain_examples:
  "plain_text ''Bitcoin''" "plain_text ''Ethereum''" "plain_text ''BTC''" "plain_text ''ETH''"
  "plain_float (JFloat 50000)" "plain_float (JFloat 3000)" "plain_float (JFloat 0)"
  "csv_int (JInt 1000)" "csv_int (JInt 500)"
  by (simp_all add: plain_text_def lower_char_def reserved_words_def ascii_lowercase_def
      ascii_uppercase_def)

lemma two_captures_plain: "plain_rows two_captures"
  by (simp add: plain_rows_def plain_row_def two_captures_def btc_row_def eth_row_def
      plain_examples valid_time_examples)

lemma headerless_state:
  "headerless = \<lparr>last_snapshot = [btc_row ''2024-01-05 12:00:30''],
                 csv_file = Some [Header [], Data (btc_row ''2024-01-05 12:00:30'')]\<rparr>"
  by (simp add: headerless_def fetch_eval fresh_def)

theorem latest_snapshot_rows_witness:
  "csv_file logged = Some (Header csv_columns # map Data two_captures)
   \<and> two_captures \<noteq> []
   \<and> plain_rows two_captures
   \<and> ''2024-01-05 12:00:00'' < ''2024-01-05 12:00:30''
   \<and> map_sum id deck_rows (ppt logged)
       = Inr [(JStr ''Bitcoin'', ''BTC'', JFloat 50000, JFloat 0, JInt 1000)]"
proof -
  have f: "csv_file logged = Some (Header csv_columns # map Data two_captures)"
    by (simp add: logged_def)
  have ne: "two_captures \<noteq> []" by (simp add: two_captures_def)
  have lt: "''2024-01-05 12:00:00'' < ''2024-01-05 12:00:30''" by simp
  from latest_snapshot_rows [OF f ne two_captures_plain] obtain d where d: "ppt logged = Inr d"
    and two: "\<forall>t1 t2. t1 < t2 \<and> (\<forall>r \<in> set two_captures. time r = t1 \<or> time r = t2)
                  \<and> (\<exists>r \<in> set two_captures. time r = t2)
                \<longrightarrow> deck_rows d =
                      map (\<lambda>r. (name r, symbol r, price r, change r, volume r))
                        (filter (\<lambda>r. time r = t2) two_captures)"
    by blast
  from two [rule_format, of "''2024-01-05 12:00:00''" "''2024-01-05 12:00:30''"] lt
  have "deck_rows d = [(JStr ''Bitcoin'', ''BTC'', JFloat 50000, JFloat 0, JInt 1000)]"
    by (simp add: two_captures_def btc_row_def eth_row_def)
  with d f ne lt two_captures_plain show ?thesis by simp
qed

text \<open>
  C3, as stated, fails: after a capture that found no asset and a capture of one asset the
  store is not empty, it holds a row, yet its first line does not name the columns, and
  the export raises instead of returning the row.
\<close>

theorem headerless_export_counterexample:
  "headerless =
     run_captures [(no_assets, noon, Writes), (ok_response, half_past, Writes)] fresh
   \<and> stored_rows headerless = [btc_row ''2024-01-05 12:00:30'']
   \<and> plain_rows (stored_rows headerless)
   \<and> ppt headerless = Inl Uncaught"
proof -
  have plain: "plain_rows [btc_row ''2024-01-05 12:00:30'']"
    by (simp add: plain_rows_def plain_row_def btc_row_def plain_examples valid_time_examples)
  have rows: "stored_rows headerless = [btc_row ''2024-01-05 12:00:30'']"
    by (simp add: headerless_state stored_rows_def file_lines_def)
  have "ppt headerless = Inl Uncaught"
    by (simp add: headerless_state ppt_def read_csv_def csv_columns_def)
  with plain rows show ?thesis by (simp add: headerless_def)
qed

theorem string_maximum_is_latest_capture_witness:
  "two_captures \<noteq> []
   \<and> time_format ''2024-01-05 12:00:00'' \<and> time_format ''2024-01-05 12:00:30''
   \<and> latest_time two_captures = Some ''2024-01-05 12:00:30''
   \<and> map_option parse_time (latest_time two_captures) = Some (2024, 1, 5, 12, 0, 30)
   \<and> latest_snapshot_spec two_captures
       = [(JStr ''Bitcoin'', ''BTC'', JFloat 50000, JFloat 0, JInt 1000)]
   \<and> map_sum id deck_rows (ppt logged) = Inr (latest_snapshot_spec two_captures)"
proof -
  have ne: "two_captures \<noteq> []" by (simp add: two_captures_def)
  have fmt: "\<forall>r \<in> set two_captures. time_format (time r)"
    using time_format_examples by (simp add: two_captures_def btc_row_def eth_row_def)
  have f: "csv_file logged = Some (Header csv_columns # map Data two_captures)"
    by (simp add: logged_def)
  have m: "Max (set (map time two_captures)) = ''2024-01-05 12:00:30''"
    by (simp add: two_captures_def btc_row_def eth_row_def)
  have l: "latest_df two_captures = [(JStr ''Bitcoin'', ''BTC'', JFloat 50000, JFloat 0, JInt 1000)]"
    by (simp add: latest_df_def latest_time_def m)
      (simp add: two_captures_def btc_row_def eth_row_def project_def)
  from string_maximum_is_latest_capture [OF ne fmt, of logged] f m l
  show ?thesis using ne time_format_examples by (simp add: parse_time_example)
qed

section \<open>Not found\<close>

lemma chart_written:
  assumes "csv_file st = Some (Header csv_columns # map Data df)"
  shows "chart pad st sy =
     (let sel = filter (\<lambda>r. upper (symbol r) = upper sy) df in
      if sel = [] then Inl (NotFound ''No data for this symbol'')
      else if \<not> list_all (\<lambda>r. numeric_cell (price r)) df then Inl Uncaught
      else Inr \<lparr> fig_title = upper sy @ '' Volatility'',
                 fig_x = map time (sort_key (\<lambda>r. parse_time (time r)) sel),
                 fig_y = map (map_option (\<lambda>s. s * sqrt 252))
                           (rolling_std 10 (pct_change pad
                              (map (\<lambda>r. float_cell (price r))
                                 (sort_key (\<lambda>r. parse_time (time r)) sel)))) \<rparr>)"
  using assms by (simp add: chart_def read_csv_written Let_def)

text \<open>
  C6, as the code has it. Without a file both routes answer 404. Two ASCII arguments that
  are equal up to case get the same answer. On a file that holds the header of the six
  columns and plain rows,
  the chart for an ASCII argument answers 404 exactly when no stored symbol equals the
  argument up to case; otherwise the times it plots are those of the rows whose symbol
  does.
\<close>

theorem chart_matching_and_not_found:
  "(csv_file st = None \<longrightarrow>
       chart pad st sy = Inl (NotFound ''No data yet'') \<and> ppt st = Inl (NotFound ''No data yet''))
   \<and> (ascii sy \<and> ascii sy' \<and> upper sy = upper sy' \<longrightarrow> chart pad st sy = chart pad st sy')
   \<and> (csv_file st = Some (Header csv_columns # map Data df)
        \<and> plain_rows df \<and> ascii sy \<longrightarrow>
        ((\<exists>msg. chart pad st sy = Inl (NotFound msg)) \<longleftrightarrow>
           (\<forall>r \<in> set df. upper (symbol r) \<noteq> upper sy))
      \<and> (\<forall>fig. chart pad st sy = Inr fig \<longrightarrow>
           set (fig_x fig) = time ` {r \<in> set df. upper (symbol r) = upper sy}
         \<and> length (fig_x fig) = length (filter (\<lambda>r. upper (symbol r) = upper sy) df)))"
proof (intro conjI impI)
  assume "csv_file st = None"
  then show "chart pad st sy = Inl (NotFound ''No data yet'')" by (simp add: chart_def)
next
  assume "csv_file st = None"
  then show "ppt st = Inl (NotFound ''No data yet'')" by (simp add: ppt_def)
next
  assume "ascii sy \<and> ascii sy' \<and> upper sy = upper sy'"
  then show "chart pad st sy = chart pad st sy'"
    by (simp add: chart_def Let_def split: option.splits)
next
  assume "csv_file st = Some (Header csv_columns # map Data df)
        \<and> plain_rows df \<and> ascii sy"
  then have f: "csv_file st = Some (Header csv_columns # map Data df)" by simp
  show "(\<exists>msg. chart pad st sy = Inl (NotFound msg)) \<longleftrightarrow>
           (\<forall>r \<in> set df. upper (symbol r) \<noteq> upper sy)"
    unfolding chart_written [OF f] by (auto simp: Let_def filter_empty_conv)
next
  assume "csv_file st = Some (Header csv_columns # map Data df)
        \<and> plain_rows df \<and> ascii sy"
  then have f: "csv_file st = Some (Header csv_columns # map Data df)" by simp
  show "\<forall>fig. chart pad st sy = Inr fig \<longrightarrow>
           set (fig_x fig) = time ` {r \<in> set df. upper (symbol r) = upper sy}
         \<and> length (fig_x fig) = length (filter (\<lambda>r. upper (symbol r) = upper sy) df)"
    unfolding chart_written [OF f] by (auto simp: Let_def split: if_splits)
qed

lemma upper_examples:
  "upper ''btc'' = ''BTC''" "upper ''BTC'' = ''BTC''" "upper ''ETH'' = ''ETH''"
  "upper ''doge'' = ''DOGE''"
  by (simp_all add: upper_def upper_char_def ascii_lowercase_def ascii_uppercase_def)

lemma parse_time_noon: "parse_time ''2024-01-05 12:00:00'' = (2024, 1, 5, 12, 0, 0)"
  by (simp add: parse_time_def nat_of_digits_def digit_val_def upt_conv_Cons)

lemma logged_file: "csv_file logged = Some (Header csv_columns # map Data two_captures)"
  by (simp add: logged_def)

lemma ascii_examples: "ascii ''btc''" "ascii ''BTC''" "ascii ''doge''"
  by (simp_all add: ascii_def)

theorem chart_matching_and_not_found_witness:
  "csv_file fresh = None
   \<and> chart False fresh ''btc'' = Inl (NotFound ''No data yet'')
   \<and> ppt fresh = Inl (NotFound ''No data yet'')
   \<and> ascii ''btc'' \<and> ascii ''BTC'' \<and> upper ''btc'' = upper ''BTC''
   \<and> chart False logged ''btc'' = chart False logged ''BTC''
   \<and> csv_file logged = Some (Header csv_columns # map Data two_captures)
   \<and> plain_rows two_captures
   \<and> ascii ''doge''
   \<and> chart False logged ''doge'' = Inl (NotFound ''No data for this symbol'')
   \<and> map_sum id fig_x (chart False logged ''btc'')
       = Inr [''2024-01-05 12:00:00'', ''2024-01-05 12:00:30'']"
proof -
  have none: "csv_file fresh = None" by (simp add: fresh_def)
  have same: "upper ''btc'' = upper ''BTC''" by (simp add: upper_examples)
  have doge: "chart False logged ''doge'' = Inl (NotFound ''No data for this symbol'')"
    unfolding chart_written [OF logged_file]
    by (simp add: two_captures_def btc_row_def eth_row_def upper_examples)
  have btc: "map_sum id fig_x (chart False logged ''btc'')
       = Inr [''2024-01-05 12:00:00'', ''2024-01-05 12:00:30'']"
    unfolding chart_written [OF logged_file]
    by (simp add: two_captures_def btc_row_def eth_row_def upper_examples
        parse_time_noon parse_time_example less_eq_prod_def)
  from chart_matching_and_not_found [of fresh False "''btc''" "''btc''" "[]"]
    chart_matching_and_not_found [of logged False "''btc''" "''BTC''" two_captures]
    chart_matching_and_not_found [of logged False "''doge''" "''doge''" two_captures]
    none same doge btc logged_file two_captures_plain ascii_examples
  show ?thesis by simp
qed

text \<open>
  C6, as stated, fails: in the store left by a capture that found no asset and a capture
  of one asset, no stored row has the symbol asked for, yet the chart does not answer 404:
  the first line does not name the columns and reading the file raises.
\<close>

theorem headerless_chart_counterexample:
  "headerless =
     run_captures [(no_assets, noon, Writes), (ok_response, half_past, Writes)] fresh
   \<and> csv_file headerless \<noteq> None
   \<and> filter (\<lambda>r. upper (symbol r) = upper ''doge'') (stored_rows headerless) = []
   \<and> chart False headerless ''doge'' = Inl Uncaught"
proof -
  have rows: "stored_rows headerless = [btc_row ''2024-01-05 12:00:30'']"
    by (simp add: headerless_state stored_rows_def file_lines_def)
  have there: "csv_file headerless \<noteq> None" by (simp add: headerless_state)
  have none: "filter (\<lambda>r. upper (symbol r) = upper ''doge'') (stored_rows headerless) = []"
    unfolding rows by (simp add: btc_row_def upper_examples)
  have "chart False headerless ''doge'' = Inl Uncaught"
    by (simp add: headerless_state chart_def read_csv_def csv_columns_def)
  with there none headerless_def show ?thesis by (simp only: simp_thms)
qed

section \<open>The volatility series\<close>

lemma ffill_present: "ffill prev (map Some xs) = map Some xs"
  by (induction xs arbitrary: prev) simp_all

lemma map_filter_present: "List.map_filter id (map Some zs) = zs"
  by (induction zs) (simp_all add: List.map_filter_simps)

text \<open>With every price present and non-zero, every return but the first is present.\<close>

lemma pct_change_present:
  assumes nz: "\<forall>x \<in> set xs. x \<noteq> 0" and ne: "xs \<noteq> []"
  shows "pct_change pad (map Some xs)
           = None # map Some (map (\<lambda>j. xs ! Suc j / xs ! j - 1) [0..<length xs - 1])"
proof -
  define ps where "ps = map Some xs"
  define qs where "qs = map Some (tl xs)"
  have lens: "length ps = length xs" "length qs = length xs - 1"
    by (simp_all add: ps_def qs_def)
  have "map (\<lambda>(prev, cur). ratio prev cur) (zip ps qs)
          = map Some (map (\<lambda>j. xs ! Suc j / xs ! j - 1) [0..<length xs - 1])"
  proof (rule nth_equalityI)
    show "length (map (\<lambda>(prev, cur). ratio prev cur) (zip ps qs))
            = length (map Some (map (\<lambda>j. xs ! Suc j / xs ! j - 1) [0..<length xs - 1]))"
      by (simp add: lens)
    fix j
    assume "j < length (map (\<lambda>(prev, cur). ratio prev cur) (zip ps qs))"
    then have j: "j < length xs - 1" by (simp add: lens)
    then have "xs ! j \<in> set xs" by (intro nth_mem) simp
    then have "xs ! j \<noteq> 0" using nz by blast
    moreover have "ps ! j = Some (xs ! j)" using j by (simp add: ps_def)
    moreover have "qs ! j = Some (xs ! Suc j)" using j by (simp add: qs_def nth_tl)
    ultimately show "map (\<lambda>(prev, cur). ratio prev cur) (zip ps qs) ! j
            = map Some (map (\<lambda>j. xs ! Suc j / xs ! j - 1) [0..<length xs - 1]) ! j"
      using j by (simp add: lens ratio_def)
  qed
  moreover from ne obtain x rest where "xs = x # rest" by (cases xs) auto
  ultimately show ?thesis
    by (simp add: pct_change_def ffill_present ps_def qs_def)
qed

text \<open>
  Behind a missing first entry, a window of ten is complete from position 10 on, and
  holds the ten entries before that position of the rest.
\<close>

lemma rolling_std_after_gap:
  assumes "i \<le> length rs"
  shows "rolling_std 10 (None # map Some rs) ! i
           = (if i < 10 then None else Some (sample_std (take 10 (drop (i - 10) rs))))"
proof -
  have at: "rolling_std 10 (None # map Some rs) ! i
      = (let obs = List.map_filter id (window 10 (None # map Some rs) i)
         in if length obs < 10 then None else Some (sample_std obs))"
    using assms by (simp add: rolling_std_def del: upt_Suc)
  show ?thesis
  proof (cases "i < 10")
    case True
    then have "window 10 (None # map Some rs) i = None # map Some (take i rs)"
      by (simp add: window_def take_map)
    then have "List.map_filter id (window 10 (None # map Some rs) i) = take i rs"
      by (simp add: List.map_filter_simps map_filter_present)
    with True assms show ?thesis by (simp add: at)
  next
    case False
    then have k: "Suc i - 10 = Suc (i - 10)" by simp
    have "window 10 (None # map Some rs) i = map Some (drop (i - 10) (take i rs))"
      by (simp only: window_def k take_Suc_Cons drop_Suc_Cons take_map drop_map)
    then have obs: "List.map_filter id (window 10 (None # map Some rs) i) = drop (i - 10) (take i rs)"
      by (simp add: map_filter_present)
    have "drop (i - 10) (take i rs) = take 10 (drop (i - 10) rs)"
      using False by (simp add: drop_take)
    moreover have "length (drop (i - 10) (take i rs)) = 10"
      using False assms by simp
    ultimately show ?thesis using False by (simp add: at obs)
  qed
qed

lemma recent_returns:
  fixes xs :: "real list"
  assumes "10 \<le> i" "i < length xs"
  shows "take 10 (drop (i - 10) (map (\<lambda>j. xs ! Suc j / xs ! j - 1) [0..<length xs - 1]))
           = map (\<lambda>j. xs ! j / xs ! (j - 1) - 1) [i - 9..<Suc i]"
proof -
  have "take 10 (drop (i - 10) [0..<length xs - 1]) = [i - 10..<i]"
    using assms by (simp add: take_upt)
  then have "take 10 (drop (i - 10) (map (\<lambda>j. xs ! Suc j / xs ! j - 1) [0..<length xs - 1]))
           = map (\<lambda>j. xs ! Suc j / xs ! j - 1) [i - 10..<i]"
    by (simp add: take_map drop_map)
  also have "\<dots> = map (\<lambda>j. xs ! j / xs ! (j - 1) - 1) (map Suc [i - 10..<i])"
    by simp
  also have "map Suc [i - 10..<i] = [i - 9..<Suc i]"
  proof -
    have s: "Suc (i - 10) = i - 9" using assms by simp
    have "map Suc [i - 10..<i] = [Suc (i - 10)..<Suc i]" by (simp only: map_Suc_upt)
    then show ?thesis by (simp only: s)
  qed
  finally show ?thesis .
qed

text \<open>The whole figure, for a symbol whose rows all carry a non-zero number as price.\<close>

lemma chart_series:
  assumes present: "csv_file st = Some (Header csv_columns # map Data df)"
    and numeric: "\<forall>r \<in> set df. numeric_cell (price r)"
    and sel: "sel = sort_key (\<lambda>r. parse_time (time r))
                      (filter (\<lambda>r. upper (symbol r) = upper sy) df)"
    and priced: "\<forall>r \<in> set sel. \<exists>x. float_cell (price r) = Some x \<and> x \<noteq> 0"
    and ne: "sel \<noteq> []"
  shows "chart pad st sy =
           Inr \<lparr> fig_title = upper sy @ '' Volatility'',
                 fig_x = map time sel,
                 fig_y = map (\<lambda>i. if i < 10 then None
                                  else Some (sample_std
                                    (map (\<lambda>j. price_value (sel ! j) / price_value (sel ! (j - 1)) - 1)
                                       [i - 9..<Suc i]) * sqrt 252))
                           [0..<length sel] \<rparr>"
proof -
  let ?xs = "map price_value sel"
  have cells: "map (\<lambda>r. float_cell (price r)) sel = map Some ?xs"
    using priced by (auto simp: price_value_def)
  have nz: "\<forall>x \<in> set ?xs. x \<noteq> 0"
    using priced by (auto simp: price_value_def)
  have xs_ne: "?xs \<noteq> []" using ne by simp
  let ?rs = "map (\<lambda>j. ?xs ! Suc j / ?xs ! j - 1) [0..<length ?xs - 1]"
  have returns: "pct_change pad (map (\<lambda>r. float_cell (price r)) sel) = None # map Some ?rs"
    unfolding cells by (rule pct_change_present [OF nz xs_ne])
  have len: "length (rolling_std 10 (None # map Some ?rs)) = length sel"
    using ne by (simp add: rolling_std_def Suc_diff_Suc length_greater_0_conv [symmetric] del: length_greater_0_conv)
  have "map (map_option (\<lambda>s. s * sqrt 252)) (rolling_std 10 (None # map Some ?rs))
          = map (\<lambda>i. if i < 10 then None
                      else Some (sample_std
                        (map (\<lambda>j. price_value (sel ! j) / price_value (sel ! (j - 1)) - 1)
                           [i - 9..<Suc i]) * sqrt 252))
              [0..<length sel]"
  proof (rule nth_equalityI)
    show "length (map (map_option (\<lambda>s. s * sqrt 252)) (rolling_std 10 (None # map Some ?rs)))
            = length (map (\<lambda>i. if i < 10 then None
                      else Some (sample_std
                        (map (\<lambda>j. price_value (sel ! j) / price_value (sel ! (j - 1)) - 1)
                           [i - 9..<Suc i]) * sqrt 252))
              [0..<length sel])"
      using len by simp
    fix i
    assume "i < length (map (map_option (\<lambda>s. s * sqrt 252)) (rolling_std 10 (None # map Some ?rs)))"
    then have i: "i < length sel" using len by simp
    then have le: "i \<le> length ?rs" by simp
    have win: "take 10 (drop (i - 10) ?rs)
                 = map (\<lambda>j. price_value (sel ! j) / price_value (sel ! (j - 1)) - 1) [i - 9..<Suc i]"
      if "10 \<le> i"
    proof -
      have "take 10 (drop (i - 10) ?rs) = map (\<lambda>j. ?xs ! j / ?xs ! (j - 1) - 1) [i - 9..<Suc i]"
        using that i by (intro recent_returns) simp_all
      also have "\<dots> = map (\<lambda>j. price_value (sel ! j) / price_value (sel ! (j - 1)) - 1) [i - 9..<Suc i]"
        using i by (intro map_cong) auto
      finally show ?thesis .
    qed
    have "rolling_std 10 (None # map Some ?rs) ! i
            = (if i < 10 then None else Some (sample_std (take 10 (drop (i - 10) ?rs))))"
      by (rule rolling_std_after_gap [OF le])
    then show "map (map_option (\<lambda>s. s * sqrt 252)) (rolling_std 10 (None # map Some ?rs)) ! i
            = map (\<lambda>i. if i < 10 then None
                      else Some (sample_std
                        (map (\<lambda>j. price_value (sel ! j) / price_value (sel ! (j - 1)) - 1)
                           [i - 9..<Suc i]) * sqrt 252))
              [0..<length sel] ! i"
      using i len win by (simp del: upt_Suc)
  qed
  moreover have "filter (\<lambda>r. upper (symbol r) = upper sy) df \<noteq> []"
    using ne sel by auto
  moreover have "list_all (\<lambda>r. numeric_cell (price r)) df"
    using numeric by (simp add: list_all_iff)
  ultimately show ?thesis
    unfolding chart_written [OF present] using returns sel by (simp add: Let_def)
qed

lemma twelve_file: "csv_file twelve = Some (Header csv_columns # map Data twelve_rows)"
  by (simp add: twelve_def)

lemma twelve_selected:
  "filter (\<lambda>r. upper (symbol r) = upper ''BTC'') twelve_rows = twelve_rows"
  by (simp add: twelve_rows_def btc_priced_def upper_examples)

lemma twelve_numeric: "\<forall>r \<in> set twelve_rows. numeric_cell (price r)"
  by (simp add: twelve_rows_def btc_priced_def)

lemma twelve_priced:
  "\<forall>r \<in> set (sort_key (\<lambda>r. parse_time (time r))
       (filter (\<lambda>r. upper (symbol r) = upper ''BTC'') twelve_rows)).
     \<exists>x. float_cell (price r) = Some x \<and> x \<noteq> 0"
  unfolding twelve_selected set_sort by (simp add: twelve_rows_def btc_priced_def)

lemma twelve_length:
  "length (sort_key (\<lambda>r. parse_time (time r))
       (filter (\<lambda>r. upper (symbol r) = upper ''BTC'') twelve_rows)) = 12"
  unfolding twelve_selected length_sort by (simp add: twelve_rows_def)

lemma twelve_nonempty:
  "sort_key (\<lambda>r. parse_time (time r))
       (filter (\<lambda>r. upper (symbol r) = upper ''BTC'') twelve_rows) \<noteq> []"
proof
  assume "sort_key (\<lambda>r. parse_time (time r))
       (filter (\<lambda>r. upper (symbol r) = upper ''BTC'') twelve_rows) = []"
  then have "length (sort_key (\<lambda>r. parse_time (time r))
       (filter (\<lambda>r. upper (symbol r) = upper ''BTC'') twelve_rows)) = 0"
    by (simp only: list.size)
  then show False unfolding twelve_length by simp
qed

lemma plain_float_cell:
  assumes "plain_float v"
  obtains x where "v = JFloat x"
  using assms by (cases v) simp_all

lemma twelve_plain: "plain_rows twelve_rows"
  by (simp add: plain_rows_def plain_row_def twelve_rows_def btc_priced_def plain_examples
      valid_time_examples)

lemma plain_rows_prices: "plain_rows df \<Longrightarrow> \<forall>r \<in> set df. plain_float (price r)"
  by (simp add: plain_rows_def plain_row_def list_all_iff)

lemma twelve_distinct:
  "distinct (map time (filter (\<lambda>r. upper (symbol r) = upper ''BTC'') twelve_rows))"
  unfolding twelve_selected by (simp add: twelve_rows_def btc_priced_def)

lemma twelve_nonzero:
  "list_all (\<lambda>r. price r \<noteq> JFloat 0)
     (filter (\<lambda>r. upper (symbol r) = upper ''BTC'') twelve_rows)"
  unfolding twelve_selected by (simp add: twelve_rows_def btc_priced_def)

text \<open>
  C1, as the code has it. Take a file that holds the header of the six columns and plain
  rows, and an ASCII symbol whose rows have pairwise different times and prices other
  than zero. The chart plots one value per stored row of the symbol, in time order.
  The values at positions 0 to 9 are undefined: the first return is undefined, so the
  first window of ten returns that is complete ends at position 10. From position 10 on
  the value is defined, and is the sample standard deviation of the ten returns ending
  there, times the square root of 252 (in real arithmetic, which the floats approximate).
\<close>

theorem volatility_windowing:
  assumes present: "csv_file st = Some (Header csv_columns # map Data df)"
    and plain: "plain_rows df"
    and arg: "ascii sy"
    and rows: "rows = filter (\<lambda>r. upper (symbol r) = upper sy) df"
    and times: "distinct (map time rows)"
    and priced: "\<forall>r \<in> set rows. price r \<noteq> JFloat 0"
    and ne: "rows \<noteq> []"
    and sel: "sel = sort_key (\<lambda>r. parse_time (time r)) rows"
  shows "\<exists>fig. chart pad st sy = Inr fig
           \<and> length (fig_y fig) = length rows
           \<and> fig_x fig = map time sel
           \<and> (\<forall>i < length rows. i < 10 \<longrightarrow> fig_y fig ! i = None)
           \<and> (\<forall>i < length rows. 10 \<le> i \<longrightarrow>
                 fig_y fig ! i =
                   Some (sample_std
                     (map (\<lambda>j. price_value (sel ! j) / price_value (sel ! (j - 1)) - 1)
                        [i - 9..<Suc i]) * sqrt 252))"
proof -
  let ?y = "map (\<lambda>i. if i < 10 then None
                                  else Some (sample_std
                                    (map (\<lambda>j. price_value (sel ! j) / price_value (sel ! (j - 1)) - 1)
                                       [i - 9..<Suc i]) * sqrt 252))
                           [0..<length sel]"
  have numeric: "\<forall>r \<in> set df. numeric_cell (price r)"
  proof
    fix r assume "r \<in> set df"
    then have "plain_float (price r)" using plain_rows_prices [OF plain] by simp
    then show "numeric_cell (price r)" by (rule plain_float_cell) simp
  qed
  have sel': "sel = sort_key (\<lambda>r. parse_time (time r))
                      (filter (\<lambda>r. upper (symbol r) = upper sy) df)"
    using sel rows by simp
  have priced': "\<forall>r \<in> set sel. \<exists>x. float_cell (price r) = Some x \<and> x \<noteq> 0"
  proof
    fix r assume "r \<in> set sel"
    then have r: "r \<in> set rows" using sel by simp
    then have "r \<in> set df" using rows by simp
    then have "plain_float (price r)" using plain_rows_prices [OF plain] by simp
    then obtain x where x: "price r = JFloat x" by (rule plain_float_cell)
    with priced r have "x \<noteq> 0" by auto
    with x show "\<exists>x. float_cell (price r) = Some x \<and> x \<noteq> 0" by simp
  qed
  have ne': "sel \<noteq> []"
  proof
    assume "sel = []"
    then have "length (sort_key (\<lambda>r. parse_time (time r)) rows) = 0" using sel by simp
    then show False using ne by (simp only: length_sort length_0_conv)
  qed
  have len: "length sel = length rows" using sel by simp
  have n: "length ?y = length rows"
    by (simp add: len)
  have early: "\<forall>i < length rows. i < 10 \<longrightarrow> ?y ! i = None"
    by (simp add: len del: upt_Suc)
  have late: "\<forall>i < length rows. 10 \<le> i \<longrightarrow> ?y ! i = Some (sample_std
                     (map (\<lambda>j. price_value (sel ! j) / price_value (sel ! (j - 1)) - 1)
                        [i - 9..<Suc i]) * sqrt 252)"
    by (simp add: len del: upt_Suc)
  show ?thesis
    unfolding chart_series [OF present numeric sel' priced' ne']
    using n early late by (simp only: figure.simps sum.inject simp_thms ex_simps)
qed

theorem volatility_windowing_witness:
  "csv_file twelve = Some (Header csv_columns # map Data twelve_rows)
   \<and> plain_rows twelve_rows
   \<and> ascii ''BTC''
   \<and> distinct (map time (filter (\<lambda>r. upper (symbol r) = upper ''BTC'') twelve_rows))
   \<and> list_all (\<lambda>r. price r \<noteq> JFloat 0)
       (filter (\<lambda>r. upper (symbol r) = upper ''BTC'') twelve_rows)
   \<and> length (filter (\<lambda>r. upper (symbol r) = upper ''BTC'') twelve_rows) = 12
   \<and> map_sum id (\<lambda>fig. (length (fig_y fig), fig_y fig ! 0, fig_y fig ! 9,
                          fig_y fig ! 10 \<noteq> None, fig_y fig ! 11 \<noteq> None))
       (chart False twelve ''BTC'') = Inr (12, None, None, True, True)"
proof -
  let ?rows = "filter (\<lambda>r. upper (symbol r) = upper ''BTC'') twelve_rows"
  let ?sel = "sort_key (\<lambda>r. parse_time (time r)) ?rows"
  have priced: "\<forall>r \<in> set ?rows. price r \<noteq> JFloat 0"
    using twelve_nonzero by (simp only: list_all_iff)
  have n: "length ?rows = 12"
    unfolding twelve_selected by (simp add: twelve_rows_def)
  have ne: "?rows \<noteq> []"
  proof
    assume "?rows = []"
    then have "length ?rows = 0" by (simp only: list.size)
    then show False unfolding n by simp
  qed
  from volatility_windowing
    [OF twelve_file twelve_plain ascii_examples(2) refl twelve_distinct priced ne refl, of False]
  obtain fig where fig: "chart False twelve ''BTC'' = Inr fig"
    and len: "length (fig_y fig) = length ?rows"
    and early: "\<forall>i < length ?rows. i < 10 \<longrightarrow> fig_y fig ! i = None"
    and late: "\<forall>i < length ?rows. 10 \<le> i \<longrightarrow>
                 fig_y fig ! i =
                   Some (sample_std
                     (map (\<lambda>j. price_value (?sel ! j) / price_value (?sel ! (j - 1)) - 1)
                        [i - 9..<Suc i]) * sqrt 252)"
    by blast
  have e0: "fig_y fig ! 0 = None"
    using early [unfolded n, rule_format, of 0] by simp
  have e9: "fig_y fig ! 9 = None"
    using early [unfolded n, rule_format, of 9] by simp
  have l10: "fig_y fig ! 10 \<noteq> None"
    using late [unfolded n, rule_format, of 10] by (simp only: option.distinct not_False_eq_True)
  have l11: "fig_y fig ! 11 \<noteq> None"
    using late [unfolded n, rule_format, of 11] by (simp only: option.distinct not_False_eq_True)
  show ?thesis
    using fig len n twelve_file e0 e9 l10 l11 twelve_plain twelve_distinct twelve_nonzero
      ascii_examples(2)
    by simp
qed

text \<open>
  C1, as stated, fails at position 9: with twelve stored rows of one symbol the value at
  position 9 is undefined, whichever way missing prices are filled.
\<close>

theorem position_nine_counterexample:
  "length (filter (\<lambda>r. upper (symbol r) = upper ''BTC'') twelve_rows) = 12
   \<and> map_sum id (\<lambda>fig. fig_y fig ! 9) (chart False twelve ''BTC'') = Inr None
   \<and> map_sum id (\<lambda>fig. fig_y fig ! 9) (chart True twelve ''BTC'') = Inr None"
proof -
  have n: "length (filter (\<lambda>r. upper (symbol r) = upper ''BTC'') twelve_rows) = 12"
    unfolding twelve_selected by (simp add: twelve_rows_def)
  have "map_sum id (\<lambda>fig. fig_y fig ! 9) (chart pad twelve ''BTC'') = Inr None" for pad
    unfolding chart_series [OF twelve_file twelve_numeric refl twelve_priced twelve_nonempty]
      twelve_length
    by (simp del: upt_Suc)
  with n show ?thesis by simp
qed

section \<open>The calendar\<close>

lemma div_step:
  fixes y k :: int
  assumes "0 < k"
  shows "y div k - (y - 1) div k = (if y mod k = 0 then 1 else 0)"
proof (cases "y mod k = 0")
  case True
  then obtain q where q: "y = k * q" by (metis mod_eq_0_iff_dvd dvd_def)
  have "(y - 1) div k = q - 1"
    by (rule int_div_pos_eq [where r = "k - 1"]) (use assms q in \<open>auto simp: algebra_simps\<close>)
  with q True assms show ?thesis by simp
next
  case False
  let ?r = "y mod k"
  have "0 \<le> ?r" "?r < k" using assms by simp_all
  with False have r: "0 \<le> ?r - 1" "?r - 1 < k" by simp_all
  have "(y - 1) div k = y div k"
  proof (rule int_div_pos_eq [where r = "?r - 1"])
    show "y - 1 = k * (y div k) + (?r - 1)" by (simp add: algebra_simps)
  qed (use r in auto)
  with False show ?thesis by simp
qed

lemma four_divides:
  fixes y :: int
  shows "y mod 100 = 0 \<longrightarrow> y mod 4 = 0" and "y mod 400 = 0 \<longrightarrow> y mod 100 = 0"
proof -
  show "y mod 100 = 0 \<longrightarrow> y mod 4 = 0"
  proof
    assume "y mod 100 = 0"
    then have "100 dvd y" by (simp add: mod_eq_0_iff_dvd)
    moreover have "(4::int) dvd 100" by simp
    ultimately have "4 dvd y" using dvd_trans by blast
    then show "y mod 4 = 0" by (simp add: mod_eq_0_iff_dvd)
  qed
  show "y mod 400 = 0 \<longrightarrow> y mod 100 = 0"
  proof
    assume "y mod 400 = 0"
    then have "400 dvd y" by (simp add: mod_eq_0_iff_dvd)
    moreover have "(100::int) dvd 400" by simp
    ultimately have "100 dvd y" using dvd_trans by blast
    then show "y mod 100 = 0" by (simp add: mod_eq_0_iff_dvd)
  qed
qed

lemma leap_count:
  fixes y :: int
  shows "365 + (if y mod 4 = 0 then 1 else 0) - (if y mod 100 = 0 then 1 else 0)
           + (if y mod 400 = 0 then 1 else (0::int))
         = (if leap y then 366 else 365)"
  unfolding leap_def using four_divides [of y]
  by (cases "y mod 4 = 0"; cases "y mod 100 = 0"; cases "y mod 400 = 0"; simp)

text \<open>A year has 365 days, and 366 when it is a leap year.\<close>

lemma days_before_next_year:
  "days_before_year (y + 1) = days_before_year y + (if leap y then 366 else 365)"
proof -
  have "days_before_year (y + 1) - days_before_year y
      = 365 + (y div 4 - (y - 1) div 4) - (y div 100 - (y - 1) div 100)
            + (y div 400 - (y - 1) div 400)"
    by (simp add: days_before_year_def)
  also have "\<dots> = 365 + (if y mod 4 = 0 then 1 else 0) - (if y mod 100 = 0 then 1 else 0)
           + (if y mod 400 = 0 then 1 else (0::int))"
    by (simp only: div_step [of 4 y] div_step [of 100 y] div_step [of 400 y] zero_less_numeral
        if_True simp_thms)
  also have "\<dots> = (if leap y then 366 else 365)" by (rule leap_count)
  finally show ?thesis by (simp only: algebra_simps)
qed

lemma year_from_bounds:
  assumes "days_before_year y \<le> z" "z < days_before_year (y + int n)"
  shows "days_before_year (year_from n y z) \<le> z \<and> z < days_before_year (year_from n y z + 1)"
  using assms
proof (induction n arbitrary: y)
  case 0
  then show ?case by simp
next
  case (Suc n)
  show ?case
  proof (cases "days_before_year (y + 1) \<le> z")
    case True
    have "y + 1 + int n = y + int (Suc n)" by simp
    with Suc.prems have "z < days_before_year (y + 1 + int n)" by (simp only: )
    with True Suc.IH [of "y + 1"] show ?thesis by simp
  next
    case False
    with Suc.prems show ?thesis by simp
  qed
qed

lemma year_from_range: "y \<le> year_from n y z \<and> year_from n y z \<le> y + int n"
proof (induction n arbitrary: y)
  case 0
  then show ?case by simp
next
  case (Suc n)
  from Suc.IH [of "y + 1"] show ?case by simp
qed

lemma month_from_bounds:
  assumes "0 \<le> r" "r < sum_list ls" "month_from ls m r = (m', d')"
  shows "m \<le> m' \<and> m' < m + int (length ls) \<and> 1 \<le> d' \<and> d' \<le> ls ! nat (m' - m)
         \<and> sum_list (take (nat (m' - m)) ls) + (d' - 1) = r"
  using assms
proof (induction ls arbitrary: m r)
  case Nil
  then show ?case by simp
next
  case (Cons l ls)
  show ?case
  proof (cases "r < l")
    case True
    with Cons.prems show ?thesis by auto
  next
    case False
    with Cons.prems have rec: "month_from ls (m + 1) (r - l) = (m', d')"
      and r: "0 \<le> r - l" "r - l < sum_list ls" by simp_all
    from Cons.IH [OF r rec]
    have ih: "m + 1 \<le> m'" "m' < m + 1 + int (length ls)" "1 \<le> d'"
      "d' \<le> ls ! nat (m' - (m + 1))"
      "sum_list (take (nat (m' - (m + 1))) ls) + (d' - 1) = r - l" by simp_all
    from ih(1) have k: "nat (m' - m) = Suc (nat (m' - (m + 1)))" by simp
    from ih show ?thesis unfolding k by simp
  qed
qed

lemma sum_month_lengths: "sum_list (month_lengths y) = (if leap y then 366 else 365)"
  by (simp add: month_lengths_def)

lemma first_and_last_year:
  "days_before_year 1677 = - 107015" "days_before_year (1677 + int 600) = 112130"
  by (simp_all add: days_before_year_def)

text \<open>
  The search finds a date of the calendar, and it is a date of the day asked for; its
  year lies between 1677 and 2277.
\<close>

lemma date_of_day_correct:
  assumes "- 107015 \<le> z" "z < 112130"
  shows "valid_date (date_of_day z) \<and> day_number (date_of_day z) = z
         \<and> 1677 \<le> fst (date_of_day z) \<and> fst (date_of_day z) \<le> 2277"
proof -
  define y where "y = year_from 600 1677 z"
  have "days_before_year 1677 \<le> z" "z < days_before_year (1677 + int 600)"
    using assms by (simp_all only: first_and_last_year)
  then have y: "days_before_year y \<le> z" "z < days_before_year (y + 1)"
    unfolding y_def using year_from_bounds by blast+
  have yr: "1677 \<le> y" "y \<le> 2277"
    using year_from_range [of 1677 600 z] by (simp_all add: y_def)
  define r where "r = z - days_before_year y"
  have r: "0 \<le> r" "r < sum_list (month_lengths y)"
    using y unfolding r_def sum_month_lengths days_before_next_year by simp_all
  obtain m d where md: "month_from (month_lengths y) 1 r = (m, d)" by force
  from month_from_bounds [OF r md]
  have b: "1 \<le> m" "m < 1 + int (length (month_lengths y))" "1 \<le> d"
    "d \<le> month_lengths y ! nat (m - 1)"
    "sum_list (take (nat (m - 1)) (month_lengths y)) + (d - 1) = r" by simp_all
  have "length (month_lengths y) = 12" by (simp add: month_lengths_def)
  with b(2) have m12: "m \<le> 12" by simp
  have "date_of_day z = (y, m, d)"
    using md by (simp add: date_of_day_def y_def [symmetric] r_def [symmetric])
  with b m12 yr show ?thesis
    by (simp add: valid_date_def day_number_def r_def)
qed

lemma days_before_year_add: "days_before_year y \<le> days_before_year (y + int n)"
proof (induction n)
  case 0
  then show ?case by simp
next
  case (Suc n)
  have "days_before_year (y + int n) \<le> days_before_year (y + int n + 1)"
    unfolding days_before_next_year by simp
  moreover have "y + int (Suc n) = y + int n + 1" by simp
  ultimately show ?case using Suc by (simp only: )
qed

lemma days_before_year_mono:
  assumes "y \<le> y'"
  shows "days_before_year y \<le> days_before_year y'"
proof -
  have "y' = y + int (nat (y' - y))" using assms by simp
  then show ?thesis using days_before_year_add [of y "nat (y' - y)"] by simp
qed

lemma prefix_sum_bounds:
  fixes ls :: "int list"
  assumes "\<forall>l \<in> set ls. 0 \<le> l" "i < length ls" "1 \<le> d" "d \<le> ls ! i"
  shows "0 \<le> sum_list (take i ls) + (d - 1)" "sum_list (take i ls) + (d - 1) < sum_list ls"
proof -
  have nonneg: "0 \<le> sum_list xs" if "set xs \<subseteq> set ls" for xs
    using that assms(1) by (intro sum_list_nonneg) auto
  have "0 \<le> sum_list (take i ls)" by (rule nonneg) (rule set_take_subset)
  with assms(3) show "0 \<le> sum_list (take i ls) + (d - 1)" by simp
  have "ls = take i ls @ ls ! i # drop (Suc i) ls"
    using assms(2) by (rule id_take_nth_drop)
  then have "sum_list ls = sum_list (take i ls) + ls ! i + sum_list (drop (Suc i) ls)"
    by (metis sum_list.Cons sum_list.append add.assoc)
  moreover have "0 \<le> sum_list (drop (Suc i) ls)" by (rule nonneg) (rule set_drop_subset)
  ultimately show "sum_list (take i ls) + (d - 1) < sum_list ls" using assms(4) by simp
qed

lemma month_from_inverse:
  assumes "\<forall>l \<in> set ls. 0 \<le> l" "i < length ls" "1 \<le> d" "d \<le> ls ! i"
  shows "month_from ls m (sum_list (take i ls) + (d - 1)) = (m + int i, d)"
  using assms
proof (induction ls arbitrary: i m)
  case Nil
  then show ?case by simp
next
  case (Cons l ls)
  show ?case
  proof (cases i)
    case 0
    with Cons.prems show ?thesis by simp
  next
    case (Suc j)
    with Cons.prems have j: "\<forall>l \<in> set ls. 0 \<le> l" "j < length ls" "1 \<le> d" "d \<le> ls ! j"
      by simp_all
    have "0 \<le> sum_list (take j ls) + (d - 1)" by (rule prefix_sum_bounds [OF j])
    then have "\<not> l + sum_list (take j ls) + (d - 1) < l" by simp
    moreover have "l + sum_list (take j ls) + (d - 1) - l = sum_list (take j ls) + (d - 1)"
      by simp
    ultimately show ?thesis
      using Cons.IH [OF j, of "m + 1"] Suc by simp
  qed
qed

lemma month_lengths_nonneg: "\<forall>l \<in> set (month_lengths y). 0 \<le> l"
  by (simp add: month_lengths_def)

lemma valid_date_month:
  assumes "valid_date (y, m, d)"
  shows "nat (m - 1) < length (month_lengths y)" "1 \<le> d" "d \<le> month_lengths y ! nat (m - 1)"
    "1 \<le> m"
proof -
  have len: "length (month_lengths y) = 12" by (simp add: month_lengths_def)
  from assms have v: "1 \<le> m" "m \<le> 12" "1 \<le> d" "d \<le> month_lengths y ! nat (m - 1)"
    by (simp_all add: valid_date_def)
  from v(1,2) have "nat (m - 1) < 12" by linarith
  then show "nat (m - 1) < length (month_lengths y)" by (simp only: len)
  from v show "1 \<le> d" "d \<le> month_lengths y ! nat (m - 1)" "1 \<le> m" by simp_all
qed

lemma valid_date_in_year:
  assumes "valid_date (y, m, d)"
  shows "days_before_year y \<le> day_number (y, m, d)"
    and "day_number (y, m, d) < days_before_year (y + 1)"
proof -
  have i: "nat (m - 1) < length (month_lengths y)" "1 \<le> d" "d \<le> month_lengths y ! nat (m - 1)"
    using valid_date_month [OF assms] by simp_all
  from prefix_sum_bounds [OF month_lengths_nonneg i]
  show "days_before_year y \<le> day_number (y, m, d)"
    and "day_number (y, m, d) < days_before_year (y + 1)"
    unfolding days_before_next_year sum_month_lengths [symmetric]
    by (simp_all add: day_number_def)
qed

text \<open>No other date of the calendar has that day number.\<close>

lemma date_of_day_unique:
  assumes "- 107015 \<le> z" "z < 112130" "valid_date date" "day_number date = z"
  shows "date = date_of_day z"
proof -
  obtain y m d where date: "date = (y, m, d)" by (cases date) auto
  define y' where "y' = year_from 600 1677 z"
  have "days_before_year 1677 \<le> z" "z < days_before_year (1677 + int 600)"
    using assms by (simp_all only: first_and_last_year)
  then have y': "days_before_year y' \<le> z" "z < days_before_year (y' + 1)"
    unfolding y'_def using year_from_bounds by blast+
  have y: "days_before_year y \<le> z" "z < days_before_year (y + 1)"
    using valid_date_in_year [of y m d] assms(3,4) date by simp_all
  have "y = y'"
  proof (rule ccontr)
    assume "y \<noteq> y'"
    then consider "y + 1 \<le> y'" | "y' + 1 \<le> y" by linarith
    then show False
    proof cases
      case 1
      from days_before_year_mono [OF 1] y y' show False by simp
    next
      case 2
      from days_before_year_mono [OF 2] y y' show False by simp
    qed
  qed
  have "valid_date (y, m, d)" using assms(3) date by simp
  then have i: "nat (m - 1) < length (month_lengths y)" "1 \<le> d"
    "d \<le> month_lengths y ! nat (m - 1)" and m: "1 \<le> m"
    by (simp_all add: valid_date_month)
  have off: "z - days_before_year y = sum_list (take (nat (m - 1)) (month_lengths y)) + (d - 1)"
    using assms(4) date by (simp add: day_number_def)
  have "month_from (month_lengths y) 1 (z - days_before_year y) = (1 + int (nat (m - 1)), d)"
    unfolding off by (rule month_from_inverse [OF month_lengths_nonneg i])
  then have "month_from (month_lengths y) 1 (z - days_before_year y) = (m, d)"
    using m by simp
  then show ?thesis
    using \<open>y = y'\<close> date by (simp add: date_of_day_def y'_def [symmetric])
qed

lemma epoch_day: "day_number (1970, 1, 1) = 0"
  by (simp add: day_number_def days_before_year_def)

lemma new_year_day: "day_number (y + 1, 1, 1) = day_number (y, 12, 31) + 1"
  by (simp add: day_number_def month_lengths_def days_before_next_year)

lemma date_of_day_example: "date_of_day 19675 = (2023, 11, 14)"
  by code_simp

section \<open>The seven-day feed\<close>

lemma round_half_even_near: "\<bar>of_int (round_half_even y) - y\<bar> \<le> 1 / 2"
  unfolding round_half_even_def Let_def by (auto; linarith)

lemma day_of_millis:
  fixes ms :: int
  assumes "- 9223372036854 \<le> ms" "ms \<le> 9223372036854"
  shows "- 106752 \<le> ms div 86400000" "ms div 86400000 \<le> 106751"
proof -
  have "(- 106752) * 86400000 \<le> ms" using assms by simp
  then have "(- 106752) * 86400000 div 86400000 \<le> ms div 86400000"
    by (rule zdiv_mono1) simp
  then show "- 106752 \<le> ms div 86400000" by simp
  have "ms \<le> 106751 * 86400000 + 86399999" using assms by simp
  then have "ms div 86400000 \<le> (106751 * 86400000 + 86399999) div 86400000"
    by (rule zdiv_mono1) simp
  then show "ms div 86400000 \<le> 106751" by simp
qed

lemma year_string_four_digits: "1000 \<le> y \<Longrightarrow> year_string y = pad4 y"
  by (simp add: year_string_def)

lemma clean_point_contract:
  assumes "- 9223372036854 \<le> ms" "ms \<le> 9223372036854"
  shows "clean_point (JArr [JInt ms, JFloat x])
           = Inr (date_text (date_of_day (ms div 86400000)),
                  JFloat (of_int (round_half_even (double_of x * 100)) / 100))"
proof -
  obtain y m d where date: "date_of_day (ms div 86400000) = (y, m, d)"
    by (cases "date_of_day (ms div 86400000)") auto
  have "1677 \<le> fst (date_of_day (ms div 86400000))"
    using date_of_day_correct [of "ms div 86400000"] day_of_millis [OF assms] by simp
  then have "1000 \<le> nat y" using date by simp
  then have year: "year_string (nat y) = pad4 (nat y)" by (rule year_string_four_digits)
  have "to_datetime ms =
          Inr \<lparr> year = nat y, month = nat m, day = nat d,
                hour = nat (ms mod 86400000 div 3600000),
                minute = nat (ms mod 86400000 div 60000 mod 60),
                second = nat (ms mod 86400000 div 1000 mod 60) \<rparr>"
    using assms by (simp add: to_datetime_def Let_def date)
  then show ?thesis
    by (simp add: clean_point_def strftime_date_def date_text_def date year)
qed

lemma cleaned_map:
  assumes "\<forall>p \<in> set ps. clean_point p = Inr (f p)"
  shows "cleaned ps = Inr (map f ps)"
  using assms by (induction ps) simp_all

lemma date_text_example: "date_text (2023, 11, 14) = ''2023-11-14''"
  by (simp add: date_text_def pad4_def pad2_def digit_char_def)

lemma calendar_example:
  "valid_date (2023, 11, 14)" "day_number (2023, 11, 14) = 19675"
  by (simp_all add: valid_date_def day_number_def month_lengths_def leap_def
      days_before_year_def)

text \<open>The binary values of one half, which is exact, and of one tenth, which is not.\<close>

lemma double_of_examples:
  "double_of (1 / 2) = 1 / 2"
  "double_of (1 / 10) = 3602879701896397 / 36028797018963968"
  by code_simp+

lemma round_examples:
  "round_half_even (double_of (42567 / 1000) * 100) = 4257"
  "round_half_even (double_of (337 / 8) * 100) = 4212"
  "round_half_even (double_of (107 / 40) * 100) = 267"
  by code_simp+

lemma chart_feed_request:
  "try_request chart_feed =
     Some (JObj [(''prices'',
       JArr (map (\<lambda>(ms, x). JArr [JInt ms, JFloat x])
               [(1700000000000, 42.567), (1700000001000, 42.125)]))])"
  by (simp add: chart_feed_def try_request_def raise_for_status_def)

lemma feed_of_one_point:
  assumes "- 9223372036854 \<le> ms" "ms \<le> 9223372036854"
  shows "btc_history
         (Got \<lparr>status_code = 200,
               body = Some (JObj [(''prices'', JArr [JArr [JInt ms, JFloat x]])])\<rparr>)
       = Inr [(date_text (date_of_day (ms div 86400000)),
               JFloat (of_int (round_half_even (double_of x * 100)) / 100))]"
  by (simp add: btc_history_def try_request_def raise_for_status_def dict_get_def
      dict_lookup_def clean_point_contract [OF assms])

text \<open>
  C7, as the code has it. When the \<^verbatim>\<open>try\<close> block fails the feed is empty. When the
  response is an object whose \<^verbatim>\<open>prices\<close> are a list of pairs of an integer of milliseconds,
  within the range of a timestamp (at most 9223372036854 either way), and a float below
  \<open>10\<^sup>1\<^sup>3\<close> in magnitude, the feed has one (date, price) pair per input pair, in order and without merging pairs of
  one day. The date is written from the date of the day \<open>ms div 86400000\<close>, so it does not
  depend on the time of day; that date is a date of the Gregorian calendar, and the only
  one whose day number is \<open>ms div 86400000\<close>, where days are numbered from 1970-01-01 as
  day 0, through the months of each year, the first of January following the 31st of
  December. The price is the
  multiple of 0.01 nearest to the binary value of the input price, a tie going to the even
  multiple, so it is within 0.005 of that value. The point (1700000000000, 42.567) gives
  the date 2023-11-14 and the price 42.57; the price 2.675, whose binary value is below
  2.675, gives 2.67.
\<close>

theorem seven_day_feed:
  "(try_request u = None \<longrightarrow> btc_history u = Inr [])
   \<and> (try_request u = Some (JObj kvs)
        \<and> dict_lookup kvs ''prices'' = Some (JArr (map (\<lambda>(ms, x). JArr [JInt ms, JFloat x]) pts))
        \<and> (\<forall>(ms, x) \<in> set pts. - 9223372036854 \<le> ms \<and> ms \<le> 9223372036854
                                    \<and> \<bar>x\<bar> < 10 ^ 13)
      \<longrightarrow> btc_history u =
            Inr (map (\<lambda>(ms, x). (date_text (date_of_day (ms div 86400000)),
                                   JFloat (of_int (round_half_even (double_of x * 100)) / 100)))
                   pts))
   \<and> (- 9223372036854 \<le> ms \<and> ms \<le> 9223372036854
      \<longrightarrow> valid_date (date_of_day (ms div 86400000))
          \<and> day_number (date_of_day (ms div 86400000)) = ms div 86400000
          \<and> (\<forall>date. valid_date date \<and> day_number date = ms div 86400000
                 \<longrightarrow> date = date_of_day (ms div 86400000)))
   \<and> day_number (1970, 1, 1) = 0
   \<and> day_number (y + 1, 1, 1) = day_number (y, 12, 31) + 1
   \<and> \<bar>of_int (round_half_even (double_of x * 100)) / 100 - double_of x\<bar> \<le> 1 / 200
   \<and> btc_history
         (Got \<lparr>status_code = 200,
               body = Some (JObj [(''prices'', JArr [JArr [JInt 1700000000000, JFloat 42.567]])])\<rparr>)
       = Inr [(''2023-11-14'', JFloat 42.57)]
   \<and> btc_history
         (Got \<lparr>status_code = 200,
               body = Some (JObj [(''prices'', JArr [JArr [JInt 1700000000000, JFloat 2.675]])])\<rparr>)
       = Inr [(''2023-11-14'', JFloat 2.67)]"
proof (intro conjI impI)
  assume "try_request u = None"
  then show "btc_history u = Inr []" by (simp add: btc_history_def)
next
  assume h: "try_request u = Some (JObj kvs)
        \<and> dict_lookup kvs ''prices'' = Some (JArr (map (\<lambda>(ms, x). JArr [JInt ms, JFloat x]) pts))
        \<and> (\<forall>(ms, x) \<in> set pts. - 9223372036854 \<le> ms \<and> ms \<le> 9223372036854
                                    \<and> \<bar>x\<bar> < 10 ^ 13)"
  let ?out = "\<lambda>(ms, x). (date_text (date_of_day (ms div 86400000)),
                           JFloat (of_int (round_half_even (double_of x * 100)) / 100))"
  have "\<forall>p \<in> set pts. clean_point ((\<lambda>(ms, x). JArr [JInt ms, JFloat x]) p) = Inr (?out p)"
    using h by (auto simp: clean_point_contract)
  then have "cleaned (map (\<lambda>(ms, x). JArr [JInt ms, JFloat x]) pts) = Inr (map ?out pts)"
    by (induction pts) simp_all
  with h show "btc_history u = Inr (map ?out pts)"
    by (simp add: btc_history_def dict_get_def)
next
  assume "- 9223372036854 \<le> ms \<and> ms \<le> 9223372036854"
  then have "- 106752 \<le> ms div 86400000" "ms div 86400000 \<le> 106751"
    using day_of_millis [of ms] by simp_all
  then show "valid_date (date_of_day (ms div 86400000))"
    using date_of_day_correct [of "ms div 86400000"] by simp
next
  assume "- 9223372036854 \<le> ms \<and> ms \<le> 9223372036854"
  then have "- 106752 \<le> ms div 86400000" "ms div 86400000 \<le> 106751"
    using day_of_millis [of ms] by simp_all
  then show "day_number (date_of_day (ms div 86400000)) = ms div 86400000"
    using date_of_day_correct [of "ms div 86400000"] by simp
next
  assume "- 9223372036854 \<le> ms \<and> ms \<le> 9223372036854"
  then have "- 106752 \<le> ms div 86400000" "ms div 86400000 \<le> 106751"
    using day_of_millis [of ms] by simp_all
  then have "- 107015 \<le> ms div 86400000" "ms div 86400000 < 112130" by simp_all
  then show "\<forall>date. valid_date date \<and> day_number date = ms div 86400000
                 \<longrightarrow> date = date_of_day (ms div 86400000)"
    using date_of_day_unique by blast
next
  show "day_number (1970, 1, 1) = 0" by (rule epoch_day)
next
  show "day_number (y + 1, 1, 1) = day_number (y, 12, 31) + 1" by (rule new_year_day)
next
  have "\<bar>of_int (round_half_even (double_of x * 100)) - double_of x * 100\<bar> \<le> 1 / 2"
    by (rule round_half_even_near)
  then show "\<bar>of_int (round_half_even (double_of x * 100)) / 100 - double_of x\<bar> \<le> 1 / 200"
    by (simp add: abs_le_iff field_simps)
next
  have day: "(1700000000000 :: int) div 86400000 = 19675" by simp
  show "btc_history
         (Got \<lparr>status_code = 200,
               body = Some (JObj [(''prices'', JArr [JArr [JInt 1700000000000, JFloat 42.567]])])\<rparr>)
       = Inr [(''2023-11-14'', JFloat 42.57)]"
    by (subst feed_of_one_point)
       (simp_all add: day date_of_day_example date_text_example round_examples)
next
  have day: "(1700000000000 :: int) div 86400000 = 19675" by simp
  show "btc_history
         (Got \<lparr>status_code = 200,
               body = Some (JObj [(''prices'', JArr [JArr [JInt 1700000000000, JFloat 2.675]])])\<rparr>)
       = Inr [(''2023-11-14'', JFloat 2.67)]"
    by (subst feed_of_one_point)
       (simp_all add: day date_of_day_example date_text_example round_examples)
qed

theorem seven_day_feed_witness:
  "try_request NoResponse = None
   \<and> btc_history NoResponse = Inr []
   \<and> try_request chart_feed =
        Some (JObj [(''prices'',
          JArr (map (\<lambda>(ms, x). JArr [JInt ms, JFloat x])
                  [(1700000000000, 42.567), (1700000001000, 42.125)]))])
   \<and> - 9223372036854 \<le> (1700000000000 :: int) \<and> (1700000000000 :: int) \<le> 9223372036854
   \<and> - 9223372036854 \<le> (1700000001000 :: int) \<and> (1700000001000 :: int) \<le> 9223372036854
   \<and> \<bar>42.567 :: real\<bar> < 10 ^ 13 \<and> \<bar>42.125 :: real\<bar> < 10 ^ 13
   \<and> btc_history chart_feed
        = Inr [(''2023-11-14'', JFloat 42.57), (''2023-11-14'', JFloat 42.12)]
   \<and> date_of_day (1700000000000 div 86400000) = (2023, 11, 14)
   \<and> valid_date (2023, 11, 14)
   \<and> day_number (2023, 11, 14) = 1700000000000 div 86400000"
proof -
  have none: "try_request NoResponse = None" by (simp add: try_request_def)
  have look: "dict_lookup [(''prices'',
          JArr (map (\<lambda>(ms, x). JArr [JInt ms, JFloat x])
                  [(1700000000000, 42.567), (1700000001000, 42.125)]))] ''prices''
      = Some (JArr (map (\<lambda>(ms, x). JArr [JInt ms, JFloat x])
                  [(1700000000000, 42.567), (1700000001000, 42.125)]))"
    by (simp add: dict_lookup_def)
  have range: "\<forall>(ms, x) \<in> set [(1700000000000 :: int, 42.567 :: real), (1700000001000, 42.125)].
                 - 9223372036854 \<le> ms \<and> ms \<le> 9223372036854 \<and> \<bar>x\<bar> < 10 ^ 13"
    by simp
  have day: "(1700000000000 :: int) div 86400000 = 19675"
    "(1700000001000 :: int) div 86400000 = 19675" by simp_all
  from seven_day_feed [of NoResponse] none
  have a: "btc_history NoResponse = Inr []" by simp
  from seven_day_feed [of chart_feed _ "[(1700000000000, 42.567), (1700000001000, 42.125)]"]
    chart_feed_request look range
  have "btc_history chart_feed =
      Inr (map (\<lambda>(ms, x). (date_text (date_of_day (ms div 86400000)),
                             JFloat (of_int (round_half_even (double_of x * 100)) / 100)))
             [(1700000000000, 42.567), (1700000001000, 42.125)])"
    by blast
  then have b: "btc_history chart_feed
        = Inr [(''2023-11-14'', JFloat 42.57), (''2023-11-14'', JFloat 42.12)]"
    by (simp add: day date_of_day_example date_text_example round_examples)
  from seven_day_feed [of NoResponse "[]" "[]" 1700000000000 0 0]
  have c: "valid_date (date_of_day (1700000000000 div 86400000))
          \<and> day_number (date_of_day (1700000000000 div 86400000)) = 1700000000000 div 86400000"
    by simp
  from none a chart_feed_request b c show ?thesis
    by (simp add: day date_of_day_example)
qed

text \<open>
  C7, as stated, fails: a response of status 200 whose body parses is a success, yet
  with a price that is null, or with a body that is a list and not an object, the route
  raises: it returns neither the pairs nor an empty sequence.
\<close>

theorem null_price_counterexample:
  "try_request null_price_feed
     = Some (JObj [(''prices'', JArr [JArr [JInt 1700000000000, JNull]])])
   \<and> btc_history null_price_feed = Inl Uncaught
   \<and> try_request list_feed = Some (JArr [])
   \<and> btc_history list_feed = Inl Uncaught"
  by (simp add: null_price_feed_def list_feed_def btc_history_def try_request_def
      raise_for_status_def dict_get_def dict_lookup_def clean_point_def to_datetime_def
      Let_def split: prod.splits)

section \<open>The times a capture writes\<close>

lemma digit_char_is_digit: "is_digit (digit_char d)"
proof -
  have "''0123456789'' ! (d mod 10) \<in> set ''0123456789''"
    by (intro nth_mem) simp
  then show ?thesis by (simp only: is_digit_def digit_char_def)
qed

text \<open>From the year 1000 on the formatted time has the fixed format.\<close>

lemma strftime_format: "1000 \<le> year t \<Longrightarrow> time_format (strftime t)"
  by (simp add: time_format_def strftime_def year_string_def pad2_def pad4_def
      digit_char_is_digit)

lemma make_row_time: "make_row now c = Inr r \<Longrightarrow> time r = now"
  by (auto simp: make_row_def split: json.splits sum.splits)

text \<open>So every row of a batch carries a time of the fixed format.\<close>

lemma capture_times_formatted:
  assumes "fetch_crypto_data u clock d st = (Inr rows, st')" and "try_request u \<noteq> None"
    and "1000 \<le> year clock"
  shows "\<forall>r \<in> set rows. time_format (time r)"
proof -
  from assms obtain coins where "build_rows (strftime clock) coins [] = Inr rows"
    by (cases d) (auto simp: fetch_crypto_data_def Let_def split: option.splits sum.splits)
  then have "list_all2 (\<lambda>c r. make_row (strftime clock) c = Inr r) coins rows"
    by (simp add: build_rows_iff)
  then have "\<forall>r \<in> set rows. \<exists>c. make_row (strftime clock) c = Inr r"
    by (fastforce simp: list_all2_conv_all_nth in_set_conv_nth)
  then show ?thesis
    using make_row_time strftime_format [OF assms(3)] by metis
qed

end
